theory Spec2Isabelle
  imports Complex_Main "HOL-Library.Word" "HOL-Library.AList"
begin

section \<open>JavaScript strings and arrays\<close>

text \<open>
  A JavaScript string is a sequence of UTF-16 code units; \<open>length\<close>, \<open>slice\<close>,
  \<open>split\<close>, \<open>includes\<close>, \<open>trim\<close> and \<open>charCodeAt\<close> all work on code units.
  \<open>js\<close> writes an ASCII literal as such a string.
\<close>

type_synonym jschar = "16 word"
type_synonym jsstring = "jschar list"

definition js :: "string \<Rightarrow> jsstring" where
  "js s = map of_char s"

text \<open>
  \<open>xs.slice(start, end)\<close> of strings and arrays: a negative index counts from the
  end, and both indices are clamped to the length.
\<close>

definition jsSlice :: "'a list \<Rightarrow> int \<Rightarrow> int \<Rightarrow> 'a list" where
  "jsSlice xs start end =
     (let len = int (length xs);
          from = (if start < 0 then max (len + start) 0 else min start len);
          to = (if end < 0 then max (len + end) 0 else min end len)
      in take (nat (to - from)) (drop (nat from) xs))"

text \<open>\<open>xs.slice(start)\<close>: the end defaults to the length.\<close>

definition jsSliceFrom :: "'a list \<Rightarrow> int \<Rightarrow> 'a list" where
  "jsSliceFrom xs start = jsSlice xs start (int (length xs))"

text \<open>The code units that \<open>String.prototype.trim\<close> strips (WhiteSpace and LineTerminator).\<close>

definition isWhiteSpace :: "jschar \<Rightarrow> bool" where
  "isWhiteSpace c \<longleftrightarrow>
     c \<in> set [0x9, 0xA, 0xB, 0xC, 0xD, 0x20, 0xA0, 0x1680, 0x2028, 0x2029, 0x202F, 0x205F,
              0x3000, 0xFEFF]
     \<or> (0x2000 \<le> c \<and> c \<le> 0x200A)"

definition trim :: "jsstring \<Rightarrow> jsstring" where
  "trim s = rev (dropWhile isWhiteSpace (rev (dropWhile isWhiteSpace s)))"

definition startsWith :: "jsstring \<Rightarrow> jsstring \<Rightarrow> bool" where
  "startsWith text p \<longleftrightarrow> take (length p) text = p"

text \<open>\<open>text.includes(sep)\<close>: some position of \<open>text\<close> starts with \<open>sep\<close>.\<close>

fun includes_str :: "jsstring \<Rightarrow> jsstring \<Rightarrow> bool" where
  "includes_str [] sep = (sep = [])"
| "includes_str (c # cs) sep = (startsWith (c # cs) sep \<or> includes_str cs sep)"

text \<open>
  \<open>text.split(sep)\<close> with a string separator: the occurrences are found from the left
  and do not overlap; an empty separator splits into the single code units.
\<close>

fun splitAux :: "jsstring \<Rightarrow> jsstring \<Rightarrow> jsstring \<Rightarrow> jsstring list" where
  "splitAux sep cur [] = [cur]"
| "splitAux sep cur (c # cs) =
     (if startsWith (c # cs) sep then cur # splitAux sep [] (drop (length sep - 1) cs)
      else splitAux sep (cur @ [c]) cs)"

definition split :: "jsstring \<Rightarrow> jsstring \<Rightarrow> jsstring list" where
  "split text sep = (if sep = [] then map (\<lambda>c. [c]) text else splitAux sep [] text)"

section \<open>The chunker (knowledgeBaseService.ts)\<close>

record ChunkConfig =
  maxChunkSize :: int
  overlapSize :: int
  separators :: "jsstring list"

definition DEFAULT_CHUNK_CONFIG :: ChunkConfig where
  "DEFAULT_CHUNK_CONFIG =
     \<lparr>maxChunkSize = 500, overlapSize = 50,
      separators = [[0xA, 0xA], [0xA], [0x3002], [0x2E, 0x20], [0x20]]\<rparr>"

text \<open>
  \<open>addOverlap\<close>: every chunk but the first gets the last \<open>overlapSize\<close> code units
  of the chunk before it (as that chunk is in the list given) in front.
\<close>

definition addOverlap :: "jsstring list \<Rightarrow> int \<Rightarrow> jsstring list" where
  "addOverlap chunks ovl =
     (if length chunks \<le> 1 \<or> ovl \<le> 0 then chunks
      else map (\<lambda>i. if i > 0 then jsSliceFrom (chunks ! (i - 1)) (- ovl) @ chunks ! i
                      else chunks ! i)
             [0..<length chunks])"

text \<open>
  The forced split at the end of \<open>splitText\<close>:
  \<^verbatim>\<open>for (let i = 0; i < text.length; i += config.maxChunkSize - config.overlapSize)\<close>.
  The loop need not end, so it is a partial function: \<open>None\<close> is a loop that never
  returns. Arrays grow without bound here; what an engine does with an array that grows
  forever comes with \<open>sliceLoop_rt\<close> below.
\<close>

partial_function (option) sliceLoop ::
    "ChunkConfig \<Rightarrow> jsstring \<Rightarrow> int \<Rightarrow> jsstring list \<Rightarrow> jsstring list option" where
  "sliceLoop config text i result =
     (if i < int (length text)
      then (let chunk = trim (jsSlice text i (i + maxChunkSize config))
            in sliceLoop config text (i + (maxChunkSize config - overlapSize config))
                 (if chunk \<noteq> [] then result @ [chunk] else result))
      else Some result)"

declare sliceLoop.simps [code]

text \<open>
  The loop over the parts of one separator. \<open>rec\<close> is the recursive call of
  \<open>splitText\<close> on an oversized part; the state is \<open>(result, current)\<close>.
\<close>

fun accumulate ::
    "(jsstring \<Rightarrow> jsstring list option) \<Rightarrow> ChunkConfig \<Rightarrow> jsstring \<Rightarrow> jsstring list \<Rightarrow>
     jsstring list \<times> jsstring \<Rightarrow> (jsstring list \<times> jsstring) option" where
  "accumulate rec config separator [] (result, current) = Some (result, current)"
| "accumulate rec config separator (part # parts) (result, current) =
     (let candidate = current @ (if current \<noteq> [] then separator else []) @ part
      in if int (length candidate) \<le> maxChunkSize config
         then accumulate rec config separator parts (result, candidate)
         else (let result1 = (if current \<noteq> [] then result @ [trim current] else result)
               in if int (length part) > maxChunkSize config
                  then (case rec part of
                          None \<Rightarrow> None
                        | Some subParts \<Rightarrow>
                            accumulate rec config separator parts (result1 @ subParts, []))
                  else accumulate rec config separator parts (result1, part)))"

text \<open>
  The loop over the separators: the first separator that occurs in the text and gives
  a non-empty result decides; when none does, the forced split.
\<close>

fun trySeparators ::
    "(jsstring \<Rightarrow> jsstring list option) \<Rightarrow> ChunkConfig \<Rightarrow> jsstring \<Rightarrow> jsstring list \<Rightarrow>
     jsstring list option" where
  "trySeparators rec config text [] = sliceLoop config text 0 []"
| "trySeparators rec config text (separator # rest) =
     (if includes_str text separator
      then (case accumulate rec config separator (split text separator) ([], []) of
              None \<Rightarrow> None
            | Some (result, current) \<Rightarrow>
                (let result2 = (if trim current \<noteq> [] then result @ [trim current] else result)
                 in if length result2 > 0 then Some (addOverlap result2 (overlapSize config))
                    else trySeparators rec config text rest))
      else trySeparators rec config text rest)"

text \<open>
  \<open>splitText\<close>. The first argument bounds the depth of the recursion (the call
  stack); \<open>None\<close> is a call that does not return within it, or whose forced split
  never ends.
\<close>

primrec splitText :: "nat \<Rightarrow> ChunkConfig \<Rightarrow> jsstring \<Rightarrow> jsstring list option" where
  "splitText 0 config text = None"
| "splitText (Suc n) config text =
     (if int (length text) \<le> maxChunkSize config
      then Some (filter (\<lambda>t. length t > 0) [trim text])
      else trySeparators (splitText n config) config text (separators config))"

section \<open>The embedding service (embeddingService.ts)\<close>

text \<open>
  JavaScript numbers are modelled as reals (vector components, scores) and as integers
  (sizes and counts): rounding, overflow and NaN of IEEE doubles are not part of the model.
  A thrown \<open>Error\<close> is a value carrying its message. The calls of the logger do not
  change any result and are left out.
\<close>

datatype Error = Error string

record EmbeddingResponse =
  embedding :: "real list"
  model :: string
  tokenCount :: nat

datatype Provider = P_openai | P_anthropic | P_none

text \<open>What \<open>openai.embeddings.create\<close> resolves to: the vectors of \<open>response.data\<close>
  and \<open>response.usage?.total_tokens\<close>.\<close>

record CreateResponse =
  data :: "real list list"
  total_tokens :: "nat option"

text \<open>
  The collaborators outside the repository: the \<open>uuid\<close> package (the \<open>k\<close>-th
  identifier it hands out), the remote embedding call (the answer to the \<open>k\<close>-th call:
  a rejection or a response) and the runtime's \<open>String.prototype.toLowerCase\<close>.
\<close>

record Env =
  uuidv4 :: "nat \<Rightarrow> jsstring"
  embeddingsCreate :: "nat \<Rightarrow> jsstring list \<Rightarrow> Error + CreateResponse"
  toLowerCase :: "jsstring \<Rightarrow> jsstring"

definition dimensions :: nat where
  "dimensions = 384"

text \<open>\<open>Math.ceil(text.length / 4)\<close>\<close>

definition tokenEstimate :: "jsstring \<Rightarrow> nat" where
  "tokenEstimate text = nat \<lceil>real (length text) / 4\<rceil>"

text \<open>The loop \<^verbatim>\<open>embedding[(charCode + i) % dimensions] += 1\<close> over the positions of the
  lower-cased text.\<close>

definition bumpAt :: "jsstring \<Rightarrow> nat \<Rightarrow> real list \<Rightarrow> real list" where
  "bumpAt normalized i emb =
     (let charCode = unat (normalized ! i);
          index = (charCode + i) mod dimensions
      in emb[index := emb ! index + 1])"

definition charHistogram :: "jsstring \<Rightarrow> real list" where
  "charHistogram normalized =
     fold (bumpAt normalized) [0..<length normalized] (replicate dimensions 0)"

text \<open>\<open>Math.sqrt(embedding.reduce((sum, val) => sum + val * val, 0))\<close>\<close>

definition magnitudeOf :: "real list \<Rightarrow> real" where
  "magnitudeOf emb = sqrt (foldl (\<lambda>sum val. sum + val * val) 0 emb)"

definition l2normalize :: "real list \<Rightarrow> real list" where
  "l2normalize emb =
     (let magnitude = magnitudeOf emb
      in if magnitude > 0
         then fold (\<lambda>i e. e[i := e ! i / magnitude]) [0..<dimensions] emb
         else emb)"

definition simpleEmbedding :: "Env \<Rightarrow> jsstring \<Rightarrow> EmbeddingResponse" where
  "simpleEmbedding env text =
     \<lparr>embedding = l2normalize (charHistogram (toLowerCase env text)),
      model = ''simple-fallback'',
      tokenCount = tokenEstimate text\<rparr>"

text \<open>
  \<open>cosineSimilarity\<close>: the three sums are accumulated in one loop over the indices
  of \<open>a\<close>.
\<close>

definition cosineSums :: "real list \<Rightarrow> real list \<Rightarrow> real \<times> real \<times> real" where
  "cosineSums a b =
     fold (\<lambda>i (dotProduct, magnitudeA, magnitudeB).
             (dotProduct + a ! i * b ! i, magnitudeA + a ! i * a ! i, magnitudeB + b ! i * b ! i))
          [0..<length a] (0, 0, 0)"

definition cosineSimilarity :: "real list \<Rightarrow> real list \<Rightarrow> Error + real" where
  "cosineSimilarity a b =
     (if length a \<noteq> length b then Inl (Error ''Vectors must have same dimensions'')
      else (case cosineSums a b of
              (dotProduct, sumA, sumB) \<Rightarrow>
                (let magnitudeA = sqrt sumA; magnitudeB = sqrt sumB
                 in if magnitudeA = 0 \<or> magnitudeB = 0 then Inr 0
                    else Inr (dotProduct / (magnitudeA * magnitudeB)))))"

text \<open>
  \<open>embedWithOpenAI\<close>: the \<open>k\<close>-th remote call; a rejection, or a response without
  \<open>data[0]\<close>, throws. The model name of the response is not read by anything modelled.
\<close>

definition embedWithOpenAI :: "Env \<Rightarrow> nat \<Rightarrow> jsstring \<Rightarrow> Error + EmbeddingResponse" where
  "embedWithOpenAI env k text =
     (case embeddingsCreate env k [text] of
        Inl e \<Rightarrow> Inl e
      | Inr response \<Rightarrow>
          (case data response of
             [] \<Rightarrow> Inl (Error ''Cannot read properties of undefined (reading 'embedding')'')
           | v # _ \<Rightarrow>
               Inr \<lparr>embedding = v, model = ''text-embedding-3-small'',
                    tokenCount = (case total_tokens response of None \<Rightarrow> 0 | Some t \<Rightarrow> t)\<rparr>))"

text \<open>
  \<open>embed\<close> never throws: any failure of the remote path falls back to
  \<open>simpleEmbedding\<close>. It returns the response and the number of remote calls made so far.
\<close>

definition embed :: "Env \<Rightarrow> Provider \<Rightarrow> nat \<Rightarrow> jsstring \<Rightarrow> EmbeddingResponse \<times> nat" where
  "embed env provider k text =
     (case provider of
        P_openai \<Rightarrow>
          (case embedWithOpenAI env k text of
             Inr r \<Rightarrow> (r, Suc k)
           | Inl e \<Rightarrow> (simpleEmbedding env text, Suc k))
      | _ \<Rightarrow> (simpleEmbedding env text, k))"

fun embedEach ::
    "Env \<Rightarrow> Provider \<Rightarrow> nat \<Rightarrow> jsstring list \<Rightarrow> EmbeddingResponse list \<times> nat" where
  "embedEach env provider k [] = ([], k)"
| "embedEach env provider k (text # texts) =
     (case embed env provider k text of
        (r, k1) \<Rightarrow> (case embedEach env provider k1 texts of (rs, k2) \<Rightarrow> (r # rs, k2)))"

text \<open>
  \<open>embedBatch\<close>: one remote call for all texts; when it is rejected, or when mapping its
  \<open>data\<close> throws (more vectors than texts: \<open>texts[index]\<close> is undefined), every text
  is embedded on its own. A response with fewer vectors than texts is returned as it is.
\<close>

definition embedBatch ::
    "Env \<Rightarrow> Provider \<Rightarrow> nat \<Rightarrow> jsstring list \<Rightarrow> EmbeddingResponse list \<times> nat" where
  "embedBatch env provider k texts =
     (if provider = P_openai
      then (case embeddingsCreate env k texts of
              Inr response \<Rightarrow>
                (if length (data response) \<le> length texts
                 then (map (\<lambda>index.
                              \<lparr>embedding = data response ! index,
                               model = ''text-embedding-3-small'',
                               tokenCount = tokenEstimate (texts ! index)\<rparr>)
                         [0..<length (data response)], Suc k)
                 else embedEach env provider (Suc k) texts)
            | Inl e \<Rightarrow> embedEach env provider (Suc k) texts)
      else embedEach env provider k texts)"

section \<open>The in-memory vector store (vectorStore.ts)\<close>

datatype DocType = T_faq | T_manual | T_article | T_policy | T_other

record ChunkMetadata =
  m_title :: "jsstring option"
  m_source :: "jsstring option"
  m_type :: "DocType option"

record DocumentChunk =
  c_id :: jsstring
  c_documentId :: jsstring
  c_tenantId :: jsstring
  c_content :: jsstring
  c_chunkIndex :: nat
  c_embedding :: "real list option"
  c_metadata :: "ChunkMetadata option"

record SearchResult =
  chunk :: DocumentChunk
  score :: real

text \<open>
  \<open>chunks\<close> is the \<open>Map\<close> from chunk id to chunk; \<open>tenantIndex\<close> maps a tenant to its
  \<open>Set\<close> of chunk ids, a duplicate-free list in insertion order (the order in which
  JavaScript iterates a \<open>Set\<close>).
\<close>

record InMemoryVectorStore =
  chunks :: "jsstring \<rightharpoonup> DocumentChunk"
  tenantIndex :: "jsstring \<rightharpoonup> jsstring list"

definition emptyStore :: InMemoryVectorStore where
  "emptyStore = \<lparr>chunks = Map.empty, tenantIndex = Map.empty\<rparr>"

definition setAdd :: "jsstring list \<Rightarrow> jsstring \<Rightarrow> jsstring list" where
  "setAdd s x = (if x \<in> set s then s else s @ [x])"

text \<open>One turn of the loop of \<open>upsert\<close>; the second component counts the identifiers drawn
  from \<open>uuidv4\<close>.\<close>

definition upsertOne ::
    "Env \<Rightarrow> DocumentChunk \<Rightarrow> InMemoryVectorStore \<times> nat \<Rightarrow> InMemoryVectorStore \<times> nat" where
  "upsertOne env chunk0 st =
     (case st of (store, u) \<Rightarrow>
        (let chunk = (if c_id chunk0 = [] then chunk0\<lparr>c_id := uuidv4 env u\<rparr> else chunk0);
             u1 = (if c_id chunk0 = [] then Suc u else u);
             ids = (case tenantIndex store (c_tenantId chunk) of None \<Rightarrow> [] | Some s \<Rightarrow> s)
         in (store\<lparr>chunks := (chunks store)(c_id chunk \<mapsto> chunk),
                    tenantIndex := (tenantIndex store)(c_tenantId chunk \<mapsto> setAdd ids (c_id chunk))\<rparr>,
             u1)))"

definition upsert ::
    "Env \<Rightarrow> DocumentChunk list \<Rightarrow> InMemoryVectorStore \<times> nat \<Rightarrow> InMemoryVectorStore \<times> nat" where
  "upsert env cs st = fold (upsertOne env) cs st"

text \<open>The loop of \<open>search\<close> over the ids of the tenant's set: a missing chunk or a chunk
  without embedding is skipped, an error of \<open>cosineSimilarity\<close> leaves the loop.\<close>

fun scoreChunks ::
    "InMemoryVectorStore \<Rightarrow> real list \<Rightarrow> jsstring list \<Rightarrow> SearchResult list \<Rightarrow>
     Error + SearchResult list" where
  "scoreChunks store emb [] results = Inr results"
| "scoreChunks store emb (i # ids) results =
     (case chunks store i of
        None \<Rightarrow> scoreChunks store emb ids results
      | Some c \<Rightarrow>
          (case c_embedding c of
             None \<Rightarrow> scoreChunks store emb ids results
           | Some e \<Rightarrow>
               (case cosineSimilarity emb e of
                  Inl err \<Rightarrow> Inl err
                | Inr s \<Rightarrow> scoreChunks store emb ids (results @ [\<lparr>chunk = c, score = s\<rparr>]))))"

text \<open>\<open>InMemoryVectorStore.search\<close>. \<open>results.sort((a, b) => b.score - a.score)\<close> is a
  stable sort by descending score.\<close>

definition searchStore ::
    "InMemoryVectorStore \<Rightarrow> real list \<Rightarrow> jsstring \<Rightarrow> int \<Rightarrow> Error + SearchResult list" where
  "searchStore store emb tenantId topK =
     (case tenantIndex store tenantId of
        None \<Rightarrow> Inr []
      | Some tenantChunkIds \<Rightarrow>
          (if tenantChunkIds = [] then Inr []
           else (case scoreChunks store emb tenantChunkIds [] of
                   Inl err \<Rightarrow> Inl err
                 | Inr results \<Rightarrow> Inr (jsSlice (sort_key (\<lambda>r. - score r) results) 0 topK))))"

text \<open>\<open>InMemoryVectorStore.delete\<close>\<close>

definition deleteOne :: "jsstring \<Rightarrow> InMemoryVectorStore \<Rightarrow> InMemoryVectorStore" where
  "deleteOne i store =
     (case chunks store i of
        None \<Rightarrow> store
      | Some c \<Rightarrow>
          store\<lparr>tenantIndex :=
                  (case tenantIndex store (c_tenantId c) of
                     None \<Rightarrow> tenantIndex store
                   | Some s \<Rightarrow> (tenantIndex store)(c_tenantId c \<mapsto> removeAll i s)),
                chunks := (chunks store)(i := None)\<rparr>)"

definition deleteIds :: "jsstring list \<Rightarrow> InMemoryVectorStore \<Rightarrow> InMemoryVectorStore" where
  "deleteIds ids store = fold deleteOne ids store"

definition deleteByTenant :: "jsstring \<Rightarrow> InMemoryVectorStore \<Rightarrow> InMemoryVectorStore" where
  "deleteByTenant tenantId store =
     (case tenantIndex store tenantId of
        None \<Rightarrow> store
      | Some tenantChunkIds \<Rightarrow>
          store\<lparr>chunks := fold (\<lambda>i m. m(i := None)) tenantChunkIds (chunks store),
                tenantIndex := (tenantIndex store)(tenantId := None)\<rparr>)"

section \<open>The knowledge base service (knowledgeBaseService.ts)\<close>

text \<open>The \<open>metadata\<close> and the two timestamps of a document are not read by any operation
  modelled here and are left out.\<close>

record Document =
  d_id :: jsstring
  d_tenantId :: jsstring
  d_title :: jsstring
  d_content :: jsstring
  d_source :: jsstring
  d_type :: DocType

record DocumentInput =
  i_title :: jsstring
  i_content :: jsstring
  i_source :: jsstring
  i_type :: DocType

record IngestRequest =
  r_tenantId :: jsstring
  r_documents :: "DocumentInput list"

datatype Status = success | failed

record IngestResult =
  documentId :: jsstring
  chunksCreated :: nat
  status :: Status
  error :: "string option"

record SearchQuery =
  q_query :: jsstring
  q_tenantId :: jsstring
  q_topK :: "int option"
  q_minScore :: "real option"

record KnowledgeBaseResult =
  content :: jsstring
  source :: jsstring
  relevanceScore :: real

text \<open>
  The service: its embedding provider, the vector store it holds, its chunk configuration
  and the \<open>Map\<close> of documents (an association list in insertion order). The last two
  fields are the state of the collaborators: how many identifiers \<open>uuidv4\<close> has handed
  out and how many remote embedding calls were made.
\<close>

record KnowledgeBaseService =
  provider :: Provider
  vectorStore :: InMemoryVectorStore
  chunkConfig :: ChunkConfig
  documents :: "(jsstring \<times> Document) list"
  uuidCount :: nat
  remoteCount :: nat

definition mkChunk :: "Env \<Rightarrow> Document \<Rightarrow> nat \<Rightarrow> nat \<Rightarrow> jsstring \<Rightarrow> DocumentChunk" where
  "mkChunk env document u i text =
     \<lparr>c_id = uuidv4 env (u + i), c_documentId = d_id document,
      c_tenantId = d_tenantId document, c_content = text, c_chunkIndex = i,
      c_embedding = None,
      c_metadata = Some \<lparr>m_title = Some (d_title document), m_source = Some (d_source document),
                         m_type = Some (d_type document)\<rparr>\<rparr>"

text \<open>\<open>chunkDocument\<close>, with the depth bound of \<open>splitText\<close>; \<open>u\<close> is the number of
  identifiers drawn before the call, the result carries the number after it.\<close>

definition chunkDocument ::
    "nat \<Rightarrow> Env \<Rightarrow> ChunkConfig \<Rightarrow> Document \<Rightarrow> nat \<Rightarrow> (DocumentChunk list \<times> nat) option" where
  "chunkDocument n env config document u =
     (if int (length (d_content document)) \<le> maxChunkSize config
      then Some ([mkChunk env document u 0 (d_content document)], Suc u)
      else (case splitText n config (d_content document) of
              None \<Rightarrow> None
            | Some textChunks \<Rightarrow>
                Some (map (\<lambda>i. mkChunk env document u i (textChunks ! i)) [0..<length textChunks],
                      u + length textChunks)))"

text \<open>
  The chunker as an engine runs it. Above, arrays grow without bound and a call that
  returns no chunk list is \<open>None\<close>, whether it runs forever or is ended by the engine.
  Inside the \<open>try\<close> block of \<open>ingest\<close> the two differ: what the engine throws is
  caught. An engine has two limits: \<open>arrayLimit\<close>, the number of elements an array can
  hold (a \<open>push\<close> onto an array of that length throws
  \<open>RangeError: Invalid array length\<close>), and \<open>callDepth\<close>, the number of nested calls
  of \<open>splitText\<close> the call stack has room for (one more throws
  \<open>RangeError: Maximum call stack size exceeded\<close>).
\<close>

record Runtime =
  callDepth :: nat
  arrayLimit :: nat

definition arrayLengthError :: Error where
  "arrayLengthError = Error ''Invalid array length''"

definition callStackError :: Error where
  "callStackError = Error ''Maximum call stack size exceeded''"

text \<open>\<open>result.push(x)\<close> and \<open>result.push(...xs)\<close> under the array limit.\<close>

definition push :: "nat \<Rightarrow> 'a list \<Rightarrow> 'a \<Rightarrow> Error + 'a list" where
  "push cap result x = (if length result < cap then Inr (result @ [x]) else Inl arrayLengthError)"

definition pushAll :: "nat \<Rightarrow> 'a list \<Rightarrow> 'a list \<Rightarrow> Error + 'a list" where
  "pushAll cap result xs =
     (if length result + length xs \<le> cap then Inr (result @ xs) else Inl arrayLengthError)"

text \<open>The forced split: \<open>None\<close> is a loop that runs forever, \<open>Some (Inl e)\<close> a loop
  that throws, \<open>Some (Inr result)\<close> a loop that ends.\<close>

partial_function (option) sliceLoop_rt ::
    "nat \<Rightarrow> ChunkConfig \<Rightarrow> jsstring \<Rightarrow> int \<Rightarrow> jsstring list \<Rightarrow> (Error + jsstring list) option" where
  "sliceLoop_rt cap config text i result =
     (if i < int (length text)
      then (let chunk = trim (jsSlice text i (i + maxChunkSize config))
            in if chunk \<noteq> []
               then (if length result < cap
                     then sliceLoop_rt cap config text
                            (i + (maxChunkSize config - overlapSize config)) (result @ [chunk])
                     else Some (Inl arrayLengthError))
               else sliceLoop_rt cap config text
                      (i + (maxChunkSize config - overlapSize config)) result)
      else Some (Inr result))"

declare sliceLoop_rt.simps [code]

fun accumulate_rt ::
    "(jsstring \<Rightarrow> (Error + jsstring list) option) \<Rightarrow> nat \<Rightarrow> ChunkConfig \<Rightarrow> jsstring \<Rightarrow>
     jsstring list \<Rightarrow> jsstring list \<times> jsstring \<Rightarrow> (Error + jsstring list \<times> jsstring) option" where
  "accumulate_rt rec cap config separator [] (result, current) = Some (Inr (result, current))"
| "accumulate_rt rec cap config separator (part # parts) (result, current) =
     (let candidate = current @ (if current \<noteq> [] then separator else []) @ part
      in if int (length candidate) \<le> maxChunkSize config
         then accumulate_rt rec cap config separator parts (result, candidate)
         else (case (if current \<noteq> [] then push cap result (trim current) else Inr result) of
                 Inl err \<Rightarrow> Some (Inl err)
               | Inr result1 \<Rightarrow>
                   (if int (length part) > maxChunkSize config
                    then (case rec part of
                            None \<Rightarrow> None
                          | Some (Inl err) \<Rightarrow> Some (Inl err)
                          | Some (Inr subParts) \<Rightarrow>
                              (case pushAll cap result1 subParts of
                                 Inl err \<Rightarrow> Some (Inl err)
                               | Inr result2 \<Rightarrow>
                                   accumulate_rt rec cap config separator parts (result2, [])))
                    else accumulate_rt rec cap config separator parts (result1, part))))"

fun trySeparators_rt ::
    "(jsstring \<Rightarrow> (Error + jsstring list) option) \<Rightarrow> nat \<Rightarrow> ChunkConfig \<Rightarrow> jsstring \<Rightarrow>
     jsstring list \<Rightarrow> (Error + jsstring list) option" where
  "trySeparators_rt rec cap config text [] = sliceLoop_rt cap config text 0 []"
| "trySeparators_rt rec cap config text (separator # rest) =
     (if includes_str text separator
      then (case accumulate_rt rec cap config separator (split text separator) ([], []) of
              None \<Rightarrow> None
            | Some (Inl err) \<Rightarrow> Some (Inl err)
            | Some (Inr (result, current)) \<Rightarrow>
                (case (if trim current \<noteq> [] then push cap result (trim current) else Inr result) of
                   Inl err \<Rightarrow> Some (Inl err)
                 | Inr result2 \<Rightarrow>
                     (if length result2 > 0 then Some (Inr (addOverlap result2 (overlapSize config)))
                      else trySeparators_rt rec cap config text rest)))
      else trySeparators_rt rec cap config text rest)"

text \<open>\<open>splitText\<close> with \<open>n\<close> nested calls left on the stack.\<close>

primrec splitText_rt ::
    "nat \<Rightarrow> nat \<Rightarrow> ChunkConfig \<Rightarrow> jsstring \<Rightarrow> (Error + jsstring list) option" where
  "splitText_rt cap 0 config text = Some (Inl callStackError)"
| "splitText_rt cap (Suc n) config text =
     (if int (length text) \<le> maxChunkSize config
      then Some (Inr (filter (\<lambda>t. length t > 0) [trim text]))
      else trySeparators_rt (splitText_rt cap n config) cap config text (separators config))"

definition chunkDocument_rt ::
    "Runtime \<Rightarrow> Env \<Rightarrow> ChunkConfig \<Rightarrow> Document \<Rightarrow> nat \<Rightarrow>
     (Error + DocumentChunk list \<times> nat) option" where
  "chunkDocument_rt rt env config document u =
     (if int (length (d_content document)) \<le> maxChunkSize config
      then Some (Inr ([mkChunk env document u 0 (d_content document)], Suc u))
      else (case splitText_rt (arrayLimit rt) (callDepth rt) config (d_content document) of
              None \<Rightarrow> None
            | Some (Inl err) \<Rightarrow> Some (Inl err)
            | Some (Inr textChunks) \<Rightarrow>
                Some (Inr (map (\<lambda>i. mkChunk env document u i (textChunks ! i))
                             [0..<length textChunks],
                           u + length textChunks))))"

text \<open>
  The body of the loop of \<open>ingest\<close> for one document, \<open>try\<close> and \<open>catch\<close>.
  Two statements of the \<open>try\<close> block can throw: the call of \<open>chunkDocument\<close> (what
  the engine throws in \<open>splitText\<close>) and \<open>embeddings[i].embedding\<close>, when the provider
  returned fewer vectors than there are chunks. Both throw before anything is stored, and
  the \<open>catch\<close> block turns the error into a failed entry with its message. A call of
  \<open>chunkDocument\<close> that runs forever is not caught: \<open>None\<close>.
\<close>

definition failedEntry :: "Error \<Rightarrow> IngestResult" where
  "failedEntry err =
     (case err of Error message \<Rightarrow>
        \<lparr>documentId = [], chunksCreated = 0, status = failed, error = Some message\<rparr>)"

definition ingestDocument ::
    "Runtime \<Rightarrow> Env \<Rightarrow> jsstring \<Rightarrow> DocumentInput \<Rightarrow> KnowledgeBaseService \<Rightarrow>
     (KnowledgeBaseService \<times> IngestResult) option" where
  "ingestDocument rt env tenantId doc kb =
     (let document = \<lparr>d_id = uuidv4 env (uuidCount kb), d_tenantId = tenantId,
                       d_title = i_title doc, d_content = i_content doc,
                       d_source = i_source doc, d_type = i_type doc\<rparr>
      in case chunkDocument_rt rt env (chunkConfig kb) document (Suc (uuidCount kb)) of
           None \<Rightarrow> None
         | Some (Inl err) \<Rightarrow> Some (kb\<lparr>uuidCount := Suc (uuidCount kb)\<rparr>, failedEntry err)
         | Some (Inr (cs, u1)) \<Rightarrow>
             (case embedBatch env (provider kb) (remoteCount kb) (map c_content cs) of
                (embeddings, k1) \<Rightarrow>
                  (if length embeddings < length cs
                   then Some (kb\<lparr>uuidCount := u1, remoteCount := k1\<rparr>,
                              failedEntry
                                (Error ''Cannot read properties of undefined (reading 'embedding')''))
                   else (let cs1 = map (\<lambda>i. (cs ! i)\<lparr>c_embedding := Some (embedding (embeddings ! i))\<rparr>)
                                       [0..<length cs]
                         in case upsert env cs1 (vectorStore kb, u1) of
                              (store1, u2) \<Rightarrow>
                                Some (kb\<lparr>vectorStore := store1,
                                         documents := AList.update (d_id document) document (documents kb),
                                         uuidCount := u2, remoteCount := k1\<rparr>,
                                      \<lparr>documentId = d_id document, chunksCreated = length cs,
                                       status = success, error = None\<rparr>)))))"

fun ingestLoop ::
    "Runtime \<Rightarrow> Env \<Rightarrow> jsstring \<Rightarrow> DocumentInput list \<Rightarrow> KnowledgeBaseService \<times> IngestResult list \<Rightarrow>
     (KnowledgeBaseService \<times> IngestResult list) option" where
  "ingestLoop rt env tenantId [] (kb, results) = Some (kb, results)"
| "ingestLoop rt env tenantId (doc # docs) (kb, results) =
     (case ingestDocument rt env tenantId doc kb of
        None \<Rightarrow> None
      | Some (kb1, r) \<Rightarrow> ingestLoop rt env tenantId docs (kb1, results @ [r]))"

text \<open>\<open>ingest\<close>: \<open>None\<close> is a call that never returns.\<close>

definition ingest ::
    "Runtime \<Rightarrow> Env \<Rightarrow> IngestRequest \<Rightarrow> KnowledgeBaseService \<Rightarrow>
     (KnowledgeBaseService \<times> IngestResult list) option" where
  "ingest rt env request kb = ingestLoop rt env (r_tenantId request) (r_documents request) (kb, [])"

text \<open>\<open>r.chunk.metadata?.source as string || 'Unknown'\<close>: a missing and an empty source both
  give \<open>'Unknown'\<close>.\<close>

definition toResult :: "SearchResult \<Rightarrow> KnowledgeBaseResult" where
  "toResult r =
     \<lparr>content = c_content (chunk r),
      source = (case c_metadata (chunk r) of
                  None \<Rightarrow> js ''Unknown''
                | Some m \<Rightarrow>
                    (case m_source m of
                       None \<Rightarrow> js ''Unknown''
                     | Some s \<Rightarrow> if s = [] then js ''Unknown'' else s)),
      relevanceScore = score r\<rparr>"

text \<open>\<open>KnowledgeBaseService.search\<close>: the service afterwards (one more remote call may have
  been made) and the results, or the error of the vector store.\<close>

definition search ::
    "Env \<Rightarrow> SearchQuery \<Rightarrow> KnowledgeBaseService \<Rightarrow>
     KnowledgeBaseService \<times> (Error + KnowledgeBaseResult list)" where
  "search env query kb =
     (let topK = (case q_topK query of None \<Rightarrow> 3 | Some k \<Rightarrow> k);
          minScore = (case q_minScore query of None \<Rightarrow> 0.5 | Some m \<Rightarrow> m)
      in case embed env (provider kb) (remoteCount kb) (q_query query) of
           (queryEmbedding, k1) \<Rightarrow>
             (kb\<lparr>remoteCount := k1\<rparr>,
              (case searchStore (vectorStore kb) (embedding queryEmbedding) (q_tenantId query)
                      (topK * 2) of
                 Inl err \<Rightarrow> Inl err
               | Inr results \<Rightarrow>
                   Inr (map toResult
                          (jsSlice (filter (\<lambda>r. score r \<ge> minScore) results) 0 topK)))))"

definition deleteDocument ::
    "jsstring \<Rightarrow> jsstring \<Rightarrow> KnowledgeBaseService \<Rightarrow> KnowledgeBaseService \<times> bool" where
  "deleteDocument docId tenantId kb =
     (case map_of (documents kb) docId of
        None \<Rightarrow> (kb, False)
      | Some document \<Rightarrow>
          (if d_tenantId document \<noteq> tenantId then (kb, False)
           else (kb\<lparr>documents := AList.delete docId (documents kb)\<rparr>, True)))"

text \<open>\<open>deleteAllForTenant\<close>: the loop over the entries of the document map, then the
  tenant's partition of the vector store.\<close>

definition deleteAllForTenant ::
    "jsstring \<Rightarrow> KnowledgeBaseService \<Rightarrow> KnowledgeBaseService \<times> nat" where
  "deleteAllForTenant tenantId kb =
     (case fold (\<lambda>entry (m, deletedCount).
                   if d_tenantId (snd entry) = tenantId
                   then (AList.delete (fst entry) m, Suc deletedCount)
                   else (m, deletedCount))
                (documents kb) (documents kb, 0) of
        (m, deletedCount) \<Rightarrow>
          (kb\<lparr>documents := m, vectorStore := deleteByTenant tenantId (vectorStore kb)\<rparr>,
           deletedCount))"

definition getDocuments :: "jsstring \<Rightarrow> KnowledgeBaseService \<Rightarrow> Document list" where
  "getDocuments tenantId kb =
     map snd (filter (\<lambda>entry. d_tenantId (snd entry) = tenantId) (documents kb))"

section \<open>Reference definitions and example inputs\<close>

text \<open>The dot product and the Euclidean norm as the specification writes them.\<close>

definition spec_dot :: "real list \<Rightarrow> real list \<Rightarrow> real" where
  "spec_dot a b = (\<Sum>i<length a. a ! i * b ! i)"

definition spec_norm :: "real list \<Rightarrow> real" where
  "spec_norm a = sqrt (\<Sum>i<length a. a ! i * a ! i)"

text \<open>
  The fallback embedding as the specification writes it: a vector of length \<open>D = 384\<close>
  whose component \<open>k\<close> counts the positions \<open>i\<close> of the lower-cased text with
  \<open>(c + i) mod D = k\<close>, where \<open>c\<close> is the code of the code unit at \<open>i\<close>; then
  divided by its Euclidean norm, unless the norm is \<open>0\<close>.
\<close>

definition spec_D :: nat where
  "spec_D = 384"

definition spec_index :: "jsstring \<Rightarrow> nat \<Rightarrow> nat" where
  "spec_index t i = (unat (t ! i) + i) mod spec_D"

definition spec_counts :: "jsstring \<Rightarrow> real list" where
  "spec_counts t = map (\<lambda>k. real (card {i. i < length t \<and> spec_index t i = k})) [0..<spec_D]"

definition spec_fallback :: "jsstring \<Rightarrow> real list" where
  "spec_fallback lowered =
     (let v = spec_counts lowered; n = spec_norm v
      in if n = 0 then v else map (\<lambda>x. x / n) v)"

text \<open>The count of component \<open>k\<close> over the first \<open>n\<close> positions.\<close>

definition countsUpto :: "jsstring \<Rightarrow> nat \<Rightarrow> nat \<Rightarrow> real" where
  "countsUpto t n k = real (card {i. i < n \<and> spec_index t i = k})"

text \<open>A configuration whose overlap equals its chunk size, and a small configuration with
  two separators (newline, then blank).\<close>

definition stuckConfig :: ChunkConfig where
  "stuckConfig = DEFAULT_CHUNK_CONFIG\<lparr>maxChunkSize := 4, overlapSize := 4\<rparr>"

definition smallConfig :: ChunkConfig where
  "smallConfig = \<lparr>maxChunkSize = 4, overlapSize = 1, separators = [js ''\<newline>'', js '' '']\<rparr>"

text \<open>An environment for the examples: distinct identifiers, a remote embedding service
  that refuses every call, and ASCII lower-casing.\<close>

definition exampleEnv :: Env where
  "exampleEnv =
     \<lparr>uuidv4 = (\<lambda>k. js ''uuid-'' @ replicate k 0x78),
      embeddingsCreate = (\<lambda>k texts. Inl (Error ''connect ECONNREFUSED'')),
      toLowerCase = map (\<lambda>c. if 0x41 \<le> c \<and> c \<le> 0x5A then c + 0x20 else c)\<rparr>"

definition chunkOf :: "string \<Rightarrow> string \<Rightarrow> real list \<Rightarrow> DocumentChunk" where
  "chunkOf i t e =
     \<lparr>c_id = js i, c_documentId = js ''doc'', c_tenantId = js t, c_content = js ''text'',
      c_chunkIndex = 0, c_embedding = Some e, c_metadata = None\<rparr>"

definition documentOf :: "string \<Rightarrow> string \<Rightarrow> string \<Rightarrow> Document" where
  "documentOf i t c =
     \<lparr>d_id = js i, d_tenantId = js t, d_title = js ''title'', d_content = js c,
      d_source = js ''faq/returns.md'', d_type = T_faq\<rparr>"

definition exampleStore :: InMemoryVectorStore where
  "exampleStore = fst (upsert exampleEnv [chunkOf ''c1'' ''A'' [1]] (emptyStore, 0))"

definition exampleService :: KnowledgeBaseService where
  "exampleService =
     \<lparr>provider = P_none, vectorStore = exampleStore, chunkConfig = DEFAULT_CHUNK_CONFIG,
      documents = [(js ''d1'', documentOf ''d1'' ''A'' ''some text'')],
      uuidCount = 0, remoteCount = 0\<rparr>"

text \<open>The defaults of a search query (\<open>topK = 3\<close>, \<open>minScore = 0.5\<close>) and the
  embedding of its text.\<close>

definition spec_topK :: "SearchQuery \<Rightarrow> int" where
  "spec_topK query = (case q_topK query of None \<Rightarrow> 3 | Some k \<Rightarrow> k)"

definition spec_minScore :: "SearchQuery \<Rightarrow> real" where
  "spec_minScore query = (case q_minScore query of None \<Rightarrow> 0.5 | Some m \<Rightarrow> m)"

definition queryEmbedding :: "Env \<Rightarrow> SearchQuery \<Rightarrow> KnowledgeBaseService \<Rightarrow> real list" where
  "queryEmbedding env query kb =
     embedding (fst (embed env (provider kb) (remoteCount kb) (q_query query)))"

text \<open>A service with the fallback provider whose store holds one chunk of tenant \<open>A\<close>
  with the all-zero embedding, and a query with the default \<open>topK\<close> and \<open>minScore\<close>.\<close>

definition zeroChunk :: DocumentChunk where
  "zeroChunk =
     \<lparr>c_id = js ''c1'', c_documentId = js ''d1'', c_tenantId = js ''A'', c_content = js ''text'',
      c_chunkIndex = 0, c_embedding = Some (replicate spec_D 0),
      c_metadata = Some \<lparr>m_title = None, m_source = Some (js ''faq.md''), m_type = None\<rparr>\<rparr>"

definition zeroService :: KnowledgeBaseService where
  "zeroService =
     \<lparr>provider = P_none,
      vectorStore = fst (upsert exampleEnv [zeroChunk] (emptyStore, 0)),
      chunkConfig = DEFAULT_CHUNK_CONFIG, documents = [], uuidCount = 0, remoteCount = 0\<rparr>"

definition hiQuery :: SearchQuery where
  "hiQuery = \<lparr>q_query = js ''hi'', q_tenantId = js ''A'', q_topK = None, q_minScore = None\<rparr>"

text \<open>The error of \<open>cosineSimilarity\<close>, and the condition under which a search meets it:
  a chunk in the tenant's id set has an embedding whose length is not that of the vector
  searched for.\<close>

definition dimensionError :: Error where
  "dimensionError = Error ''Vectors must have same dimensions''"

definition mismatchAt :: "InMemoryVectorStore \<Rightarrow> real list \<Rightarrow> jsstring \<Rightarrow> bool" where
  "mismatchAt store emb i =
     (case chunks store i of
        None \<Rightarrow> False
      | Some c \<Rightarrow> (case c_embedding c of None \<Rightarrow> False | Some e \<Rightarrow> length e \<noteq> length emb))"

definition dimensionMismatch :: "InMemoryVectorStore \<Rightarrow> jsstring \<Rightarrow> real list \<Rightarrow> bool" where
  "dimensionMismatch store tenantId emb =
     (case tenantIndex store tenantId of
        None \<Rightarrow> False
      | Some ids \<Rightarrow> list_ex (mismatchAt store emb) ids)"

text \<open>An engine with room for ten thousand nested calls and the largest array length of the
  language; a configuration whose overlap exceeds its chunk size; a fresh service with the
  fallback provider and a given configuration; a document to ingest.\<close>

definition exampleRuntime :: Runtime where
  "exampleRuntime = \<lparr>callDepth = 10000, arrayLimit = 4294967295\<rparr>"

definition backwardConfig :: ChunkConfig where
  "backwardConfig = DEFAULT_CHUNK_CONFIG\<lparr>maxChunkSize := 4, overlapSize := 5\<rparr>"

definition serviceWith :: "ChunkConfig \<Rightarrow> KnowledgeBaseService" where
  "serviceWith config =
     \<lparr>provider = P_none, vectorStore = emptyStore, chunkConfig = config, documents = [],
      uuidCount = 0, remoteCount = 0\<rparr>"

definition inputOf :: "string \<Rightarrow> DocumentInput" where
  "inputOf c = \<lparr>i_title = js ''title'', i_content = js c, i_source = js ''faq/returns.md'',
                i_type = T_faq\<rparr>"

text \<open>A fresh service with the OpenAI provider, and what ingesting one short document
  stores: the document with the \<open>k\<close>-th identifier, its one chunk with the next
  identifier and a given embedding, and the result entry.\<close>

definition openaiService :: KnowledgeBaseService where
  "openaiService =
     \<lparr>provider = P_openai, vectorStore = emptyStore, chunkConfig = DEFAULT_CHUNK_CONFIG,
      documents = [], uuidCount = 0, remoteCount = 0\<rparr>"

definition storedDocument :: "nat \<Rightarrow> string \<Rightarrow> Document" where
  "storedDocument k c =
     \<lparr>d_id = uuidv4 exampleEnv k, d_tenantId = js ''A'', d_title = js ''title'', d_content = js c,
      d_source = js ''faq/returns.md'', d_type = T_faq\<rparr>"

definition storedChunk :: "nat \<Rightarrow> string \<Rightarrow> real list \<Rightarrow> DocumentChunk" where
  "storedChunk k c e =
     (mkChunk exampleEnv (storedDocument k c) (Suc k) 0 (js c))\<lparr>c_embedding := Some e\<rparr>"

definition okResult :: "nat \<Rightarrow> IngestResult" where
  "okResult k = \<lparr>documentId = uuidv4 exampleEnv k, chunksCreated = 1, status = success, error = None\<rparr>"

text \<open>A remote service that answers the first call with one vector of length \<open>2\<close> and
  refuses every later call, and the service after ingesting the document \<open>alpha\<close> with
  it.\<close>

definition onceEnv :: Env where
  "onceEnv =
     exampleEnv\<lparr>embeddingsCreate :=
       (\<lambda>k texts. if k = 0 then Inr \<lparr>data = [[1, 0]], total_tokens = None\<rparr>
                   else Inl (Error ''connect ECONNREFUSED''))\<rparr>"

definition mixedState :: KnowledgeBaseService where
  "mixedState =
     openaiService
       \<lparr>vectorStore := fst (upsert exampleEnv [storedChunk 0 ''alpha'' [1, 0]] (emptyStore, 2)),
        documents := [(uuidv4 exampleEnv 0, storedDocument 0 ''alpha'')],
        uuidCount := 2, remoteCount := 1\<rparr>"

text \<open>A query with \<open>topK = -1\<close> and \<open>minScore = 0\<close>, and a service whose store holds
  four chunks of tenant \<open>A\<close> with the all-zero embedding.\<close>

definition negativeQuery :: SearchQuery where
  "negativeQuery = hiQuery\<lparr>q_topK := Some (- 1), q_minScore := Some 0\<rparr>"

definition fourService :: KnowledgeBaseService where
  "fourService =
     zeroService
       \<lparr>vectorStore :=
          fst (upsert exampleEnv
                 [zeroChunk\<lparr>c_id := js ''c1''\<rparr>, zeroChunk\<lparr>c_id := js ''c2''\<rparr>,
                  zeroChunk\<lparr>c_id := js ''c3''\<rparr>, zeroChunk\<lparr>c_id := js ''c4''\<rparr>]
                 (emptyStore, 0))\<rparr>"

text \<open>
  A batch of three documents for the service with the OpenAI provider. The remote service
  refuses every call but the third (call number \<open>2\<close>, the batch call for the second
  document), which it answers with an empty \<open>data\<close>. The states after the first, second
  and third document, and the entry of the second.
\<close>

definition flakyEnv :: Env where
  "flakyEnv =
     exampleEnv\<lparr>embeddingsCreate :=
       (\<lambda>k texts. if k = 2 then Inr \<lparr>data = [], total_tokens = None\<rparr>
                   else Inl (Error ''connect ECONNREFUSED''))\<rparr>"

definition alphaState :: KnowledgeBaseService where
  "alphaState =
     openaiService
       \<lparr>vectorStore :=
          fst (upsert exampleEnv
                 [storedChunk 0 ''alpha'' (embedding (simpleEmbedding flakyEnv (js ''alpha'')))]
                 (emptyStore, 2)),
        documents := [(uuidv4 exampleEnv 0, storedDocument 0 ''alpha'')],
        uuidCount := 2, remoteCount := 2\<rparr>"

definition betaState :: KnowledgeBaseService where
  "betaState = alphaState\<lparr>uuidCount := 4, remoteCount := 3\<rparr>"

definition gammaState :: KnowledgeBaseService where
  "gammaState =
     betaState
       \<lparr>vectorStore :=
          fst (upsert exampleEnv
                 [storedChunk 4 ''gamma'' (embedding (simpleEmbedding flakyEnv (js ''gamma'')))]
                 (vectorStore betaState, 6)),
        documents := AList.update (uuidv4 exampleEnv 4) (storedDocument 4 ''gamma'') (documents betaState),
        uuidCount := 6, remoteCount := 5\<rparr>"

definition failedResult :: IngestResult where
  "failedResult =
     failedEntry (Error ''Cannot read properties of undefined (reading 'embedding')'')"

section \<open>Cosine similarity\<close>

lemma fold_cosine_sums:
  "fold (\<lambda>i (d, ma, mb). (d + a ! i * b ! i, ma + a ! i * a ! i, mb + b ! i * b ! i))
        [0..<n] (d0, ma0, mb0)
   = (d0 + (\<Sum>i<n. a ! i * b ! i), ma0 + (\<Sum>i<n. a ! i * a ! i), mb0 + (\<Sum>i<n. b ! i * b ! i))"
  by (induction n) (simp_all add: add.assoc)

lemma cosineSums_eq:
  "length a = length b \<Longrightarrow>
   cosineSums a b = (spec_dot a b, (\<Sum>i<length a. a ! i * a ! i), (\<Sum>i<length b. b ! i * b ! i))"
  by (simp add: cosineSums_def fold_cosine_sums spec_dot_def)

lemma cosineSimilarity_eq:
  "length a = length b \<Longrightarrow>
   cosineSimilarity a b =
     Inr (if spec_norm a = 0 \<or> spec_norm b = 0 then 0
          else spec_dot a b / (spec_norm a * spec_norm b))"
  by (simp add: cosineSimilarity_def cosineSums_eq spec_norm_def)

lemma spec_dot_commute: "length a = length b \<Longrightarrow> spec_dot a b = spec_dot b a"
  by (simp add: spec_dot_def mult.commute)

text \<open>
  C5. \<open>cosineSimilarity a b\<close> throws exactly when the two vectors differ in length. For
  vectors of equal length it returns \<open>dot(a, b) / (||a|| * ||b||)\<close>, and \<open>0\<close> when
  one of the two norms is \<open>0\<close>.
\<close>

theorem cosineSimilarity_contract:
  "((\<exists>e. cosineSimilarity a b = Inl e) \<longleftrightarrow> length a \<noteq> length b) \<and>
   (length a = length b \<longrightarrow>
      cosineSimilarity a b =
        Inr (if spec_norm a = 0 \<or> spec_norm b = 0 then 0
             else spec_dot a b / (spec_norm a * spec_norm b)))"
proof (cases "length a = length b")
  case True
  then show ?thesis using cosineSimilarity_eq [OF True] by simp
next
  case False
  then show ?thesis by (simp add: cosineSimilarity_def)
qed

theorem cosineSimilarity_contract_witness:
  "(\<exists>e. cosineSimilarity [1, 0] [1, 1, 0] = Inl e) \<and>
   cosineSimilarity [1, 0] [0, 2] = Inr 0 \<and>
   cosineSimilarity [0, 2] [0, 2] = Inr 1 \<and>
   cosineSimilarity [0, 0] [0, 2] = Inr 0"
  using cosineSimilarity_contract [of "[1, 0]" "[1, 1, 0]"]
    cosineSimilarity_contract [of "[1, 0]" "[0, 2]"]
    cosineSimilarity_contract [of "[0, 2]" "[0, 2]"]
    cosineSimilarity_contract [of "[0, 0]" "[0, 2]"]
  by (simp add: spec_norm_def spec_dot_def lessThan_Suc numeral_2_eq_2)

text \<open>
  C10. Cosine similarity is symmetric: for vectors of equal length,
  \<open>cosineSimilarity a b = cosineSimilarity b a\<close>.
\<close>

theorem cosineSimilarity_symmetric:
  "length a = length b \<Longrightarrow> cosineSimilarity a b = cosineSimilarity b a"
  by (simp add: cosineSimilarity_eq spec_dot_commute mult.commute disj_commute)

theorem cosineSimilarity_symmetric_witness:
  "length [1, 2 :: real] = length [2, 0 :: real] \<and>
   cosineSimilarity [1, 2] [2, 0] = cosineSimilarity [2, 0] [1, 2]"
  using cosineSimilarity_symmetric [of "[1, 2]" "[2, 0]"] by simp

section \<open>The fallback embedding\<close>

lemma dimensions_spec: "dimensions = spec_D"
  by (simp only: dimensions_def spec_D_def)

lemma countsUpto_Suc:
  "countsUpto t (Suc n) k = (if spec_index t n = k then countsUpto t n k + 1 else countsUpto t n k)"
proof -
  have fin: "finite {i. i < n \<and> spec_index t i = k}" by simp
  have "{i. i < Suc n \<and> spec_index t i = k}
          = (if spec_index t n = k then insert n {i. i < n \<and> spec_index t i = k}
             else {i. i < n \<and> spec_index t i = k})"
    by (auto simp: less_Suc_eq)
  then show ?thesis using fin by (simp add: countsUpto_def)
qed

lemma spec_index_less: "spec_index t i < spec_D"
  by (simp add: spec_index_def spec_D_def)

lemma bumpAt_counts:
  "bumpAt t n (map (countsUpto t n) [0..<spec_D]) = map (countsUpto t (Suc n)) [0..<spec_D]"
proof -
  have idx: "(unat (t ! n) + n) mod dimensions = spec_index t n"
    by (simp only: spec_index_def dimensions_spec)
  show ?thesis
    unfolding bumpAt_def Let_def idx
    using spec_index_less [of t n]
    by (auto simp: list_eq_iff_nth_eq nth_list_update countsUpto_Suc)
qed

lemma histogram_upto:
  "fold (bumpAt t) [0..<n] (replicate dimensions 0) = map (countsUpto t n) [0..<spec_D]"
proof (induction n)
  case 0
  show ?case
    by (simp add: dimensions_spec countsUpto_def list_eq_iff_nth_eq)
next
  case (Suc n)
  then show ?case by (simp add: bumpAt_counts)
qed

lemma charHistogram_spec: "charHistogram t = spec_counts t"
  by (simp add: charHistogram_def histogram_upto spec_counts_def countsUpto_def)

lemma foldl_squares: "foldl (\<lambda>sum val. sum + val * val) a e = a + (\<Sum>i<length e. e ! i * e ! i)"
proof (induction e arbitrary: a rule: rev_induct)
  case Nil
  show ?case by simp
next
  case (snoc x xs)
  have "(\<Sum>i<length xs. (xs @ [x]) ! i * (xs @ [x]) ! i) = (\<Sum>i<length xs. xs ! i * xs ! i)"
    by (rule sum.cong) (simp_all add: nth_append)
  with snoc show ?case by (simp add: add.assoc)
qed

lemma magnitudeOf_spec: "magnitudeOf e = spec_norm e"
  by (simp add: magnitudeOf_def spec_norm_def foldl_squares)

lemma spec_norm_nonneg: "0 \<le> spec_norm e"
  by (simp add: spec_norm_def sum_nonneg)

lemma divide_loop:
  "n \<le> length e \<Longrightarrow>
   fold (\<lambda>i e. e[i := e ! i / m]) [0..<n] e = map (\<lambda>x. x / m) (take n e) @ drop n e"
proof (induction n)
  case 0
  show ?case by simp
next
  case (Suc n)
  then have n: "n < length e" by simp
  have d: "drop n e = e ! n # drop (Suc n) e"
    using n by (simp add: Cons_nth_drop_Suc)
  have tk: "take (Suc n) e = take n e @ [e ! n]"
    using n by (simp add: take_Suc_conv_app_nth)
  have len: "length (map (\<lambda>x. x / m) (take n e)) = n"
    using n by simp
  have "(map (\<lambda>x. x / m) (take n e) @ drop n e)[n := (map (\<lambda>x. x / m) (take n e) @ drop n e) ! n / m]
        = map (\<lambda>x. x / m) (take (Suc n) e) @ drop (Suc n) e"
    by (simp only: list_update_append nth_append len d tk) simp
  with Suc show ?case by simp
qed

lemma length_spec_counts: "length (spec_counts t) = spec_D"
  by (simp add: spec_counts_def)

lemma l2normalize_spec: "l2normalize (spec_counts t) = spec_fallback t"
proof -
  have "fold (\<lambda>i e. e[i := e ! i / m]) [0..<dimensions] (spec_counts t)
          = map (\<lambda>x. x / m) (spec_counts t)" for m
    using divide_loop [of dimensions "spec_counts t" m]
    by (simp add: dimensions_spec length_spec_counts)
  then show ?thesis
    using spec_norm_nonneg [of "spec_counts t"]
    by (simp add: l2normalize_def spec_fallback_def magnitudeOf_spec Let_def)
qed

lemma spec_norm_zero: 
  assumes "spec_norm e = 0" 
  shows "e = replicate (length e) 0"
proof -
  from assms have "(\<Sum>i<length e. e ! i * e ! i) = 0" by (simp add: spec_norm_def)
  then have "\<forall>i\<in>{..<length e}. e ! i * e ! i = 0"
    by (subst (asm) sum_nonneg_eq_0_iff) simp_all
  then show ?thesis by (simp add: list_eq_iff_nth_eq)
qed

lemma length_charHistogram: "length (charHistogram t) = spec_D"
  by (simp add: charHistogram_spec length_spec_counts)

lemma length_simpleEmbedding: "length (embedding (simpleEmbedding env t)) = spec_D"
  by (simp add: simpleEmbedding_def charHistogram_spec l2normalize_spec spec_fallback_def Let_def
      length_spec_counts)

text \<open>
  C4. The fallback embedding is the reference vector: length \<open>384\<close>, component \<open>k\<close>
  the number of positions \<open>i\<close> of the lower-cased text with \<open>(c + i) mod 384 = k\<close>,
  divided by the Euclidean norm, and all zero when that norm is \<open>0\<close>; the token count is
  \<open>ceil(length / 4)\<close> of the text given. It is a function of the text alone: with a
  provider other than OpenAI, \<open>embed\<close> returns it whatever the number of calls made
  before, and makes no remote call.
\<close>

theorem simpleEmbedding_reference:
  "embedding (simpleEmbedding env t) = spec_fallback (toLowerCase env t) \<and>
   length (embedding (simpleEmbedding env t)) = spec_D \<and>
   (spec_norm (spec_counts (toLowerCase env t)) = 0 \<longrightarrow>
      embedding (simpleEmbedding env t) = replicate spec_D 0) \<and>
   tokenCount (simpleEmbedding env t) = nat \<lceil>real (length t) / 4\<rceil> \<and>
   (p \<noteq> P_openai \<longrightarrow> embed env p k t = (simpleEmbedding env t, k))"
proof -
  have e: "embedding (simpleEmbedding env t) = spec_fallback (toLowerCase env t)"
    by (simp add: simpleEmbedding_def charHistogram_spec l2normalize_spec)
  have len: "length (spec_fallback (toLowerCase env t)) = spec_D"
    by (simp add: spec_fallback_def Let_def length_spec_counts)
  have z: "spec_norm (spec_counts (toLowerCase env t)) = 0 \<longrightarrow>
      spec_fallback (toLowerCase env t) = replicate spec_D 0"
    using spec_norm_zero [of "spec_counts (toLowerCase env t)"]
    by (simp add: spec_fallback_def Let_def length_spec_counts)
  have tok: "tokenCount (simpleEmbedding env t) = nat \<lceil>real (length t) / 4\<rceil>"
    by (simp add: simpleEmbedding_def tokenEstimate_def)
  have det: "p \<noteq> P_openai \<longrightarrow> embed env p k t = (simpleEmbedding env t, k)"
    by (cases p) (simp_all add: embed_def)
  show ?thesis using len z tok det by (simp only: e)
qed

lemma spec_counts_empty: "spec_counts [] = replicate spec_D 0"
  by (simp add: spec_counts_def list_eq_iff_nth_eq)

lemma spec_norm_zeros: "spec_norm (replicate n 0) = 0"
  by (simp add: spec_norm_def)

theorem simpleEmbedding_reference_witness:
  "spec_norm (spec_counts (toLowerCase exampleEnv [])) = 0 \<and>
   embedding (simpleEmbedding exampleEnv []) = replicate spec_D 0 \<and>
   tokenCount (simpleEmbedding exampleEnv (js ''Hello'')) = 2 \<and>
   P_none \<noteq> P_openai \<and>
   embed exampleEnv P_none 7 (js ''Hello'') = (simpleEmbedding exampleEnv (js ''Hello''), 7)"
proof -
  have lower: "toLowerCase exampleEnv [] = []" by (simp add: exampleEnv_def)
  have n: "spec_norm (spec_counts (toLowerCase exampleEnv [])) = 0"
    by (simp only: lower spec_counts_empty spec_norm_zeros)
  have l: "nat \<lceil>real (length (js ''Hello'')) / 4\<rceil> = 2" by (simp add: js_def)
  show ?thesis
    using simpleEmbedding_reference [of exampleEnv "[]" P_none 0]
      simpleEmbedding_reference [of exampleEnv "js ''Hello''" P_none 7] n l
    by auto
qed

section \<open>The chunker: the forced split and the overlap\<close>

lemmas chunk_eval = js_def split_def startsWith_def trim_def isWhiteSpace_def addOverlap_def
  jsSliceFrom_def jsSlice_def Let_def upt_rec

text \<open>When the forced split returns, it was either past the end of the text or its stride
  \<open>maxChunkSize - overlapSize\<close> was positive.\<close>

lemma sliceLoop_Some_progress:
  assumes r: "sliceLoop config txt i result = Some y"
  shows "\<not> (i < int (length txt) \<and> maxChunkSize config \<le> overlapSize config)"
proof (rule sliceLoop.raw_induct
    [where P = "\<lambda>c t j r y. \<not> (j < int (length t) \<and> maxChunkSize c \<le> overlapSize c)", OF _ r])
  fix f and c :: ChunkConfig and t j r y
  assume IH: "\<And>c t j r y. f c t j r = Some y \<Longrightarrow>
                \<not> (j < int (length t) \<and> maxChunkSize c \<le> overlapSize c)"
    and step: "(if j < int (length t)
      then (let chunk = trim (jsSlice t j (j + maxChunkSize c))
            in f c t (j + (maxChunkSize c - overlapSize c))
                 (if chunk \<noteq> [] then r @ [chunk] else r))
      else Some r) = Some y"
  show "\<not> (j < int (length t) \<and> maxChunkSize c \<le> overlapSize c)"
  proof
    assume a: "j < int (length t) \<and> maxChunkSize c \<le> overlapSize c"
    with step have "\<exists>r'. f c t (j + (maxChunkSize c - overlapSize c)) r' = Some y"
      by (auto simp: Let_def)
    then obtain r' where "f c t (j + (maxChunkSize c - overlapSize c)) r' = Some y" ..
    from IH [OF this] a show False by simp
  qed
qed

lemma sliceLoop_diverges:
  "i < int (length txt) \<Longrightarrow> maxChunkSize config \<le> overlapSize config \<Longrightarrow>
   sliceLoop config txt i result = None"
  using sliceLoop_Some_progress [of "config" "txt" "i" "result"]
  by (cases "sliceLoop config txt i result") auto

text \<open>Termination when the stride is positive: the parts of a split are shorter than
  the text (or single code units), so the recursion is as deep as the text is long at most,
  and the forced split moves forward.\<close>

lemma splitAux_length_le:
  "p \<in> set (splitAux sep cur t) \<Longrightarrow> length p \<le> length cur + length t"
proof (induction sep cur t rule: splitAux.induct)
  case (1 sep cur)
  then show ?case by simp
next
  case (2 sep cur c cs)
  show ?case
  proof (cases "startsWith (c # cs) sep")
    case True
    with "2.prems" have "p = cur \<or> p \<in> set (splitAux sep [] (drop (length sep - 1) cs))"
      by simp
    then show ?thesis
    proof
      assume "p = cur" then show ?thesis by simp
    next
      assume "p \<in> set (splitAux sep [] (drop (length sep - 1) cs))"
      from "2.IH"(1) [OF True this] show ?thesis by simp
    qed
  next
    case False
    with "2.prems" have "p \<in> set (splitAux sep (cur @ [c]) cs)" by simp
    from "2.IH"(2) [OF False this] show ?thesis by simp
  qed
qed

lemma splitAux_length_less:
  "sep \<noteq> [] \<Longrightarrow> includes_str t sep \<Longrightarrow> p \<in> set (splitAux sep cur t) \<Longrightarrow>
   length p < length cur + length t"
proof (induction sep cur t rule: splitAux.induct)
  case (1 sep cur)
  then show ?case by simp
next
  case (2 sep cur c cs)
  show ?case
  proof (cases "startsWith (c # cs) sep")
    case True
    with "2.prems" have "p = cur \<or> p \<in> set (splitAux sep [] (drop (length sep - 1) cs))"
      by simp
    then show ?thesis
    proof
      assume "p = cur" then show ?thesis by simp
    next
      assume "p \<in> set (splitAux sep [] (drop (length sep - 1) cs))"
      from splitAux_length_le [OF this] show ?thesis by simp
    qed
  next
    case False
    with "2.prems" have in_rest: "includes_str cs sep" and mem: "p \<in> set (splitAux sep (cur @ [c]) cs)"
      by simp_all
    from "2.IH"(2) [OF False "2.prems"(1) in_rest mem] show ?thesis by simp
  qed
qed

lemma split_part_shorter:
  assumes "includes_str t sep" and "p \<in> set (split t sep)"
  shows "length p < length t \<or> length p \<le> 1"
proof (cases "sep = []")
  case True
  with assms(2) show ?thesis by (auto simp: split_def)
next
  case False
  with assms(2) have "p \<in> set (splitAux sep [] t)" by (simp add: split_def)
  from splitAux_length_less [OF False assms(1) this] show ?thesis by simp
qed

lemma accumulate_returns:
  "(\<And>p. p \<in> set parts \<Longrightarrow> maxChunkSize config < int (length p) \<Longrightarrow> rec p \<noteq> None) \<Longrightarrow>
   accumulate rec config sep parts st \<noteq> None"
proof (induction parts arbitrary: st)
  case Nil
  then show ?case by (cases st) simp
next
  case (Cons part parts)
  obtain result current where st: "st = (result, current)" by (cases st)
  have tail: "\<And>st'. accumulate rec config sep parts st' \<noteq> None"
    using Cons.IH Cons.prems by simp
  show ?case
  proof (cases "maxChunkSize config < int (length part)")
    case True
    then obtain subParts where "rec part = Some subParts"
      using Cons.prems [of part] by auto
    then show ?thesis using tail by (simp add: st Let_def)
  next
    case False
    then show ?thesis using tail by (simp add: st Let_def)
  qed
qed

lemma sliceLoop_returns:
  assumes stride: "overlapSize config < maxChunkSize config"
  shows "\<exists>r. sliceLoop config t i result = Some r"
proof (induction "nat (int (length t) - i)" arbitrary: i result rule: less_induct)
  case less
  show ?case
  proof (cases "i < int (length t)")
    case True
    let ?chunk = "trim (jsSlice t i (i + maxChunkSize config))"
    let ?i' = "i + (maxChunkSize config - overlapSize config)"
    have "nat (int (length t) - ?i') < nat (int (length t) - i)"
      using True stride by simp
    from less [OF this]
    obtain r where "sliceLoop config t ?i' (if ?chunk \<noteq> [] then result @ [?chunk] else result) = Some r"
      by blast
    then show ?thesis using True
      by (subst sliceLoop.simps) (simp add: Let_def)
  next
    case False
    then show ?thesis by (subst sliceLoop.simps) simp
  qed
qed

lemma trySeparators_returns:
  assumes rec: "\<And>p. length p < length t \<Longrightarrow> rec p \<noteq> None"
    and pos: "0 < maxChunkSize config"
    and stride: "overlapSize config < maxChunkSize config"
  shows "trySeparators rec config t seps \<noteq> None"
proof (induction seps)
  case Nil
  then show ?case using sliceLoop_returns [OF stride, of t 0 "[]"] by auto
next
  case (Cons sep seps)
  show ?case
  proof (cases "includes_str t sep")
    case True
    have "accumulate rec config sep (split t sep) ([], []) \<noteq> None"
    proof (rule accumulate_returns)
      fix p
      assume p: "p \<in> set (split t sep)" and big: "maxChunkSize config < int (length p)"
      from split_part_shorter [OF True p] big pos have "length p < length t" by auto
      then show "rec p \<noteq> None" by (rule rec)
    qed
    then obtain result current where
      "accumulate rec config sep (split t sep) ([], []) = Some (result, current)"
      by auto
    then show ?thesis using True Cons.IH by (simp add: Let_def)
  next
    case False
    then show ?thesis using Cons.IH by simp
  qed
qed

lemma splitText_returns:
  assumes pos: "0 < maxChunkSize config" and stride: "overlapSize config < maxChunkSize config"
  shows "length t < n \<Longrightarrow> splitText n config t \<noteq> None"
proof (induction n arbitrary: t)
  case 0
  then show ?case by simp
next
  case (Suc n)
  show ?case
  proof (cases "int (length t) \<le> maxChunkSize config")
    case True
    then show ?thesis by simp
  next
    case False
    have "trySeparators (splitText n config) config t (separators config) \<noteq> None"
    proof (rule trySeparators_returns [OF _ pos stride])
      fix p :: jsstring
      assume "length p < length t"
      with Suc.prems have "length p < n" by simp
      then show "splitText n config p \<noteq> None" by (rule Suc.IH)
    qed
    with False show ?thesis by simp
  qed
qed

text \<open>
  C3 (what the code does). With \<open>maxChunkSize = overlapSize = 4\<close> and the default
  separators, \<open>splitText\<close> on the separator-free text \<open>abcdef\<close> reaches the forced
  split with stride \<open>0\<close>; the loop never ends, so neither \<open>splitText\<close> nor
  \<open>chunkDocument\<close> returns, whatever the depth allowed. (An engine ends this loop when
  the array is full, by throwing \<open>RangeError: Invalid array length\<close>, and still no
  chunk list is returned: \<open>stuck_split_overflows\<close>. With an overlap above the chunk size
  nothing ends it: \<open>backward_split_hangs\<close>.)
\<close>

theorem splitText_never_returns:
  "sliceLoop stuckConfig (js ''abcdef'') 0 [] = None \<and>
   splitText n stuckConfig (js ''abcdef'') = None \<and>
   chunkDocument n env stuckConfig (documentOf ''d1'' ''A'' ''abcdef'') u = None"
proof -
  have loop: "sliceLoop stuckConfig (js ''abcdef'') 0 [] = None"
    by (rule sliceLoop_diverges) (simp_all add: stuckConfig_def js_def)
  have split: "splitText n stuckConfig (js ''abcdef'') = None"
  proof (cases n)
    case 0
    then show ?thesis by simp
  next
    case (Suc m)
    then show ?thesis using loop
      by (simp add: stuckConfig_def DEFAULT_CHUNK_CONFIG_def js_def startsWith_def)
  qed
  have "d_content (documentOf ''d1'' ''A'' ''abcdef'') = js ''abcdef''"
    by (simp add: documentOf_def)
  then have "chunkDocument n env stuckConfig (documentOf ''d1'' ''A'' ''abcdef'') u = None"
    using split by (simp add: chunkDocument_def stuckConfig_def js_def)
  with loop split show ?thesis by simp
qed

text \<open>
  C2 (what the code does). With \<open>maxChunkSize = 4\<close>, \<open>overlapSize = 1\<close> and the
  separators newline and blank, the text \<open>ab cd ef\<newline>gh\<close> has the raw segments
  \<open>ab\<close>, \<open>cd\<close>, \<open>ef\<close>, \<open>gh\<close> (what the same configuration without overlap
  returns). The recursive call on the oversized part
  \<open>ab cd ef\<close> returns its chunks with the overlap already in front, and the outer
  level adds an overlap once more: the second chunk is \<open>bbcd\<close>, the third \<open>ddef\<close>,
  where a single application of the overlap gives \<open>bcd\<close> and \<open>def\<close>.
\<close>

theorem overlap_compounded:
  "splitText (Suc (Suc k)) (smallConfig\<lparr>overlapSize := 0\<rparr>) (js ''ab cd ef\<newline>gh'')
     = Some (map js [''ab'', ''cd'', ''ef'', ''gh'']) \<and>
   splitText (Suc k) smallConfig (js ''ab cd ef'') = Some (map js [''ab'', ''bcd'', ''def'']) \<and>
   splitText (Suc (Suc k)) smallConfig (js ''ab cd ef\<newline>gh'')
     = Some (map js [''ab'', ''bbcd'', ''ddef'', ''fgh'']) \<and>
   map_option (\<lambda>r. map c_content (fst r))
       (chunkDocument (Suc (Suc k)) env smallConfig (documentOf ''d1'' ''A'' ''ab cd ef\<newline>gh'') u)
     = Some (map js [''ab'', ''bbcd'', ''ddef'', ''fgh'']) \<and>
   addOverlap (map js [''ab'', ''cd'', ''ef'', ''gh'']) (overlapSize smallConfig)
     = map js [''ab'', ''bcd'', ''def'', ''fgh'']"
proof -
  have raw: "splitText (Suc (Suc k)) (smallConfig\<lparr>overlapSize := 0\<rparr>) (js ''ab cd ef\<newline>gh'')
     = Some (map js [''ab'', ''cd'', ''ef'', ''gh''])"
    by (simp add: smallConfig_def chunk_eval)
  have inner: "splitText (Suc k) smallConfig (js ''ab cd ef'') = Some (map js [''ab'', ''bcd'', ''def''])"
    by (simp add: smallConfig_def chunk_eval)
  have outer: "splitText (Suc (Suc k)) smallConfig (js ''ab cd ef\<newline>gh'')
     = Some (map js [''ab'', ''bbcd'', ''ddef'', ''fgh''])"
    by (simp add: smallConfig_def chunk_eval)
  have doc: "map_option (\<lambda>r. map c_content (fst r))
       (chunkDocument (Suc (Suc k)) env smallConfig (documentOf ''d1'' ''A'' ''ab cd ef\<newline>gh'') u)
     = Some (map js [''ab'', ''bbcd'', ''ddef'', ''fgh''])"
  proof -
    have c: "d_content (documentOf ''d1'' ''A'' ''ab cd ef\<newline>gh'') = js ''ab cd ef\<newline>gh''"
      by (simp add: documentOf_def)
    have big: "\<not> int (length (js ''ab cd ef\<newline>gh'')) \<le> maxChunkSize smallConfig"
      by (simp add: js_def smallConfig_def)
    show ?thesis
      unfolding chunkDocument_def c using big
      by (simp add: outer mkChunk_def upt_rec del: splitText.simps)
  qed
  have once: "addOverlap (map js [''ab'', ''cd'', ''ef'', ''gh'']) (overlapSize smallConfig)
     = map js [''ab'', ''bcd'', ''def'', ''fgh'']"
    by (simp add: smallConfig_def chunk_eval)
  from raw inner outer doc once show ?thesis by simp
qed

text \<open>
  C6 (as stated, refuted). A document of at most \<open>maxChunkSize\<close> code units becomes one
  chunk whose content is the document's content as it is: the content \<open>" a"\<close> is not
  trimmed to \<open>"a"\<close>.
\<close>

theorem small_document_untrimmed_counterexample:
  "chunkDocument 1 exampleEnv DEFAULT_CHUNK_CONFIG (documentOf ''d1'' ''A'' '' a'') 0
     = Some ([mkChunk exampleEnv (documentOf ''d1'' ''A'' '' a'') 0 0 (js '' a'')], 1) \<and>
   c_content (mkChunk exampleEnv (documentOf ''d1'' ''A'' '' a'') 0 0 (js '' a'')) = js '' a'' \<and>
   trim (d_content (documentOf ''d1'' ''A'' '' a'')) = js ''a'' \<and>
   js '' a'' \<noteq> js ''a''"
  by (simp add: chunkDocument_def DEFAULT_CHUNK_CONFIG_def documentOf_def mkChunk_def js_def
      trim_def isWhiteSpace_def)

text \<open>
  C6 (amended). For a document whose content has at most \<open>maxChunkSize\<close> code units,
  \<open>chunkDocument\<close> returns exactly one chunk, with the content unchanged (neither
  trimmed nor given an overlap), \<open>chunkIndex = 0\<close>, the document's id and tenant, and no
  embedding yet; it does so at every depth bound, since \<open>splitText\<close> is not called.
\<close>

theorem small_document_single_chunk:
  "int (length (d_content document)) \<le> maxChunkSize config \<Longrightarrow>
   \<exists>c. chunkDocument n env config document u = Some ([c], Suc u) \<and>
       c_content c = d_content document \<and> c_chunkIndex c = 0 \<and>
       c_documentId c = d_id document \<and> c_tenantId c = d_tenantId document \<and>
       c_embedding c = None"
  by (simp add: chunkDocument_def mkChunk_def)

theorem small_document_single_chunk_witness:
  "int (length (d_content (documentOf ''d1'' ''A'' '' a''))) \<le> maxChunkSize DEFAULT_CHUNK_CONFIG \<and>
   (\<exists>c. chunkDocument 0 exampleEnv DEFAULT_CHUNK_CONFIG (documentOf ''d1'' ''A'' '' a'') 0 = Some ([c], 1) \<and>
       c_content c = js '' a'' \<and> c_chunkIndex c = 0)"
  using small_document_single_chunk [of "documentOf ''d1'' ''A'' '' a''" DEFAULT_CHUNK_CONFIG 0 exampleEnv 0]
  by (auto simp: documentOf_def DEFAULT_CHUNK_CONFIG_def js_def)

section \<open>The chunker under the limits of the engine\<close>

text \<open>Whenever the chunker under the limits returns a chunk list, it is the list of the
  chunker with unbounded arrays.\<close>

lemma sliceLoop_rt_agrees:
  assumes r: "sliceLoop_rt cap config txt i result = Some y"
  shows "\<forall>res. y = Inr res \<longrightarrow> sliceLoop config txt i result = Some res"
proof (rule sliceLoop_rt.raw_induct
    [where P = "\<lambda>cap c t j r y. \<forall>res. y = Inr res \<longrightarrow> sliceLoop c t j r = Some res", OF _ r])
  fix f and cap :: nat and c :: ChunkConfig and t j r y
  assume IH: "\<And>cap c t j r y. f cap c t j r = Some y \<Longrightarrow>
                \<forall>res. y = Inr res \<longrightarrow> sliceLoop c t j r = Some res"
    and step: "(if j < int (length t)
      then (let chunk = trim (jsSlice t j (j + maxChunkSize c))
            in if chunk \<noteq> []
               then (if length r < cap
                     then f cap c t (j + (maxChunkSize c - overlapSize c)) (r @ [chunk])
                     else Some (Inl arrayLengthError))
               else f cap c t (j + (maxChunkSize c - overlapSize c)) r)
      else Some (Inr r)) = Some y"
  show "\<forall>res. y = Inr res \<longrightarrow> sliceLoop c t j r = Some res"
  proof (intro allI impI)
    fix res assume y: "y = Inr res"
    show "sliceLoop c t j r = Some res"
    proof (cases "j < int (length t)")
      case False
      with step y show ?thesis by (subst sliceLoop.simps) simp
    next
      case True
      let ?chunk = "trim (jsSlice t j (j + maxChunkSize c))"
      let ?j = "j + (maxChunkSize c - overlapSize c)"
      have "f cap c t ?j (if ?chunk \<noteq> [] then r @ [?chunk] else r) = Some y"
        using step True y by (auto simp: Let_def split: if_splits)
      from IH [OF this] y
      have "sliceLoop c t ?j (if ?chunk \<noteq> [] then r @ [?chunk] else r) = Some res" by simp
      then show ?thesis using True by (subst sliceLoop.simps) (simp add: Let_def)
    qed
  qed
qed

lemma accumulate_rt_agrees:
  assumes rec: "\<And>p y. rec_rt p = Some (Inr y) \<Longrightarrow> rec p = Some y"
  shows "accumulate_rt rec_rt cap config sep parts st = Some (Inr st') \<Longrightarrow>
         accumulate rec config sep parts st = Some st'"
proof (induction parts arbitrary: st)
  case Nil
  then show ?case by (cases st) auto
next
  case (Cons part parts)
  obtain result current where st: "st = (result, current)" by (cases st)
  show ?case
    using Cons.prems
    by (auto simp: st Let_def push_def pushAll_def
        split: if_splits sum.splits option.splits
        intro!: Cons.IH dest!: rec)
qed

lemma trySeparators_rt_agrees:
  assumes rec: "\<And>p y. rec_rt p = Some (Inr y) \<Longrightarrow> rec p = Some y"
  shows "trySeparators_rt rec_rt cap config txt seps = Some (Inr res) \<Longrightarrow>
         trySeparators rec config txt seps = Some res"
proof (induction seps)
  case Nil
  then show ?case using sliceLoop_rt_agrees [of "cap" "config" "txt" 0 "[]" "Inr res"] by simp
next
  case (Cons sep seps)
  show ?case
  proof (cases "includes_str txt sep")
    case False
    then show ?thesis using Cons by simp
  next
    case True
    show ?thesis
    proof (cases "accumulate_rt rec_rt cap config sep (split txt sep) ([], [])")
      case None
      then show ?thesis using Cons.prems True by simp
    next
      case (Some a)
      show ?thesis
      proof (cases a)
        case (Inl err)
        then show ?thesis using Cons.prems True Some by simp
      next
        case (Inr st')
        obtain result current where st': "st' = (result, current)" by (cases st')
        have acc: "accumulate rec config sep (split txt sep) ([], []) = Some (result, current)"
          using accumulate_rt_agrees [of "rec_rt" "rec" "cap" "config" "sep" "split txt sep" "([], [])" "st'"] rec Some Inr st'
          by simp
        show ?thesis
          using Cons.prems True Some Inr st' acc Cons.IH
          by (auto simp: Let_def push_def split: if_splits sum.splits)
      qed
    qed
  qed
qed

lemma splitText_rt_agrees:
  "splitText_rt cap n config txt = Some (Inr res) \<Longrightarrow> splitText n config txt = Some res"
proof (induction n arbitrary: "txt" res)
  case 0
  then show ?case by simp
next
  case (Suc n)
  show ?case
  proof (cases "int (length txt) \<le> maxChunkSize config")
    case True
    then show ?thesis using Suc.prems by auto
  next
    case False
    with Suc.prems have "trySeparators_rt (splitText_rt cap n config) cap config txt (separators config) = Some (Inr res)"
      by simp
    then have "trySeparators (splitText n config) config txt (separators config) = Some res"
      by (rule trySeparators_rt_agrees [rotated]) (rule Suc.IH)
    with False show ?thesis by simp
  qed
qed

lemma chunkDocument_rt_agrees:
  "chunkDocument_rt rt env config document u = Some (Inr res) \<Longrightarrow>
   chunkDocument (callDepth rt) env config document u = Some res"
  by (auto simp: chunkDocument_rt_def chunkDocument_def
      split: if_splits option.splits sum.splits dest!: splitText_rt_agrees)

text \<open>With a positive stride every call returns: a chunk list or an error thrown.\<close>

lemma sliceLoop_rt_returns:
  assumes stride: "overlapSize config < maxChunkSize config"
  shows "\<exists>y. sliceLoop_rt cap config t i result = Some y"
proof (induction "nat (int (length t) - i)" arbitrary: i result rule: less_induct)
  case less
  show ?case
  proof (cases "i < int (length t)")
    case True
    let ?i' = "i + (maxChunkSize config - overlapSize config)"
    have "nat (int (length t) - ?i') < nat (int (length t) - i)"
      using True stride by simp
    from less [OF this]
    have "\<And>r. \<exists>y. sliceLoop_rt cap config t ?i' r = Some y" by blast
    then show ?thesis using True
      by (subst sliceLoop_rt.simps) (simp add: Let_def)
  next
    case False
    then show ?thesis by (subst sliceLoop_rt.simps) simp
  qed
qed

lemma accumulate_rt_returns:
  "(\<And>p. rec p \<noteq> None) \<Longrightarrow> accumulate_rt rec cap config sep parts st \<noteq> None"
proof (induction parts arbitrary: st)
  case Nil
  then show ?case by (cases st) simp
next
  case (Cons part parts)
  obtain result current where st: "st = (result, current)" by (cases st)
  have tail: "\<And>st'. accumulate_rt rec cap config sep parts st' \<noteq> None"
    using Cons.IH Cons.prems by simp
  obtain y where "rec part = Some y" using Cons.prems [of part] by auto
  then show ?case using tail
    by (auto simp: st Let_def split: sum.splits)
qed

lemma trySeparators_rt_returns:
  assumes rec: "\<And>p. rec p \<noteq> None"
    and stride: "overlapSize config < maxChunkSize config"
  shows "trySeparators_rt rec cap config t seps \<noteq> None"
proof (induction seps)
  case Nil
  then show ?case using sliceLoop_rt_returns [OF stride, of cap t 0 "[]"] by auto
next
  case (Cons sep seps)
  have "accumulate_rt rec cap config sep (split t sep) ([], []) \<noteq> None"
    by (rule accumulate_rt_returns) (rule rec)
  then show ?case using Cons.IH
    by (auto simp: Let_def split: sum.splits)
qed

lemma splitText_rt_returns:
  assumes stride: "overlapSize config < maxChunkSize config"
  shows "splitText_rt cap n config t \<noteq> None"
proof (induction n arbitrary: t)
  case 0
  show ?case by simp
next
  case (Suc n)
  have "trySeparators_rt (splitText_rt cap n config) cap config t (separators config) \<noteq> None"
    by (rule trySeparators_rt_returns [OF _ stride]) (rule Suc.IH)
  then show ?case by simp
qed

lemma chunkDocument_rt_returns:
  assumes "overlapSize config < maxChunkSize config"
  shows "chunkDocument_rt rt env config document u \<noteq> None"
  using splitText_rt_returns [OF assms, of "arrayLimit rt" "callDepth rt" "d_content document"]
  by (auto simp: chunkDocument_rt_def split: option.splits sum.splits)

text \<open>Stride zero on a non-empty slice: the same slice is pushed until the array is full,
  and the push throws.\<close>

lemma sliceLoop_rt_overflows:
  assumes zero: "overlapSize config = maxChunkSize config"
    and inside: "i < int (length t)"
    and chunk: "trim (jsSlice t i (i + maxChunkSize config)) \<noteq> []"
  shows "sliceLoop_rt cap config t i result = Some (Inl arrayLengthError)"
proof (induction "cap - length result" arbitrary: result rule: less_induct)
  case less
  show ?case
  proof (cases "length result < cap")
    case False
    then show ?thesis using inside chunk
      by (subst sliceLoop_rt.simps) (simp add: Let_def)
  next
    case True
    let ?chunk = "trim (jsSlice t i (i + maxChunkSize config))"
    have "cap - length (result @ [?chunk]) < cap - length result" using True by simp
    from less [OF this]
    have "sliceLoop_rt cap config t i (result @ [?chunk]) = Some (Inl arrayLengthError)" .
    then show ?thesis using inside chunk True zero
      by (subst sliceLoop_rt.simps) (simp add: Let_def)
  qed
qed

lemma jsSlice_nonempty: "jsSlice xs s e \<noteq> [] \<Longrightarrow> 0 < e + int (length xs)"
  by (auto simp: jsSlice_def Let_def split: if_splits)

lemma trim_empty: "trim [] = []"
  by (simp add: trim_def)

text \<open>Negative stride: the index moves away from the end of the text, only finitely many
  slices are non-empty, and the loop goes on for ever.\<close>

lemma sliceLoop_rt_Some_progress:
  assumes r: "sliceLoop_rt cap config tx i result = Some y"
  shows "\<not> (maxChunkSize config < overlapSize config \<and> i < int (length tx) \<and>
            int (length result) + max 0 (i + maxChunkSize config + int (length tx)) \<le> int cap)"
proof (rule sliceLoop_rt.raw_induct
    [where P = "\<lambda>cap c t j r y. \<not> (maxChunkSize c < overlapSize c \<and> j < int (length t) \<and>
            int (length r) + max 0 (j + maxChunkSize c + int (length t)) \<le> int cap)", OF _ r])
  fix f and cap :: nat and c :: ChunkConfig and t j r y
  assume IH: "\<And>cap c t j r y. f cap c t j r = Some y \<Longrightarrow>
                \<not> (maxChunkSize c < overlapSize c \<and> j < int (length t) \<and>
            int (length r) + max 0 (j + maxChunkSize c + int (length t)) \<le> int cap)"
    and step: "(if j < int (length t)
      then (let chunk = trim (jsSlice t j (j + maxChunkSize c))
            in if chunk \<noteq> []
               then (if length r < cap
                     then f cap c t (j + (maxChunkSize c - overlapSize c)) (r @ [chunk])
                     else Some (Inl arrayLengthError))
               else f cap c t (j + (maxChunkSize c - overlapSize c)) r)
      else Some (Inr r)) = Some y"
  show "\<not> (maxChunkSize c < overlapSize c \<and> j < int (length t) \<and>
            int (length r) + max 0 (j + maxChunkSize c + int (length t)) \<le> int cap)"
  proof
    assume a: "maxChunkSize c < overlapSize c \<and> j < int (length t) \<and>
            int (length r) + max 0 (j + maxChunkSize c + int (length t)) \<le> int cap"
    let ?chunk = "trim (jsSlice t j (j + maxChunkSize c))"
    let ?j = "j + (maxChunkSize c - overlapSize c)"
    show False
    proof (cases "?chunk = []")
      case True
      with step a have "f cap c t ?j r = Some y" by (simp add: Let_def)
      from IH [OF this] a show False by (auto simp: max_def split: if_splits)
    next
      case False
      then have "jsSlice t j (j + maxChunkSize c) \<noteq> []" using trim_empty by auto
      from jsSlice_nonempty [OF this] have pos: "0 < j + maxChunkSize c + int (length t)" by simp
      with a have room: "length r < cap" by (simp add: max_def)
      with step a False have "f cap c t ?j (r @ [?chunk]) = Some y" by (simp add: Let_def)
      from IH [OF this] a pos show False by (auto simp: max_def split: if_splits)
    qed
  qed
qed

lemma sliceLoop_rt_hangs:
  "maxChunkSize config < overlapSize config \<Longrightarrow> i < int (length tx) \<Longrightarrow>
   int (length result) + max 0 (i + maxChunkSize config + int (length tx)) \<le> int cap \<Longrightarrow>
   sliceLoop_rt cap config tx i result = None"
  using sliceLoop_rt_Some_progress [of "cap" "config" "tx" "i" "result"]
  by (cases "sliceLoop_rt cap config tx i result") auto

section \<open>The vector store and deletion\<close>

text \<open>
  C1 (what the code does). A chunk id upserted under tenant \<open>A\<close> and then again under
  tenant \<open>B\<close> stays in the id set of \<open>A\<close>: \<open>upsert\<close> adds the id to the new
  tenant's set and never removes it from the old one. A search for tenant \<open>A\<close> then
  returns the chunk, whose tenant is \<open>B\<close>.
\<close>

theorem search_returns_other_tenant:
  "searchStore
     (fst (upsert env [chunkOf ''c1'' ''B'' [1]]
            (upsert env [chunkOf ''c1'' ''A'' [1]] (emptyStore, 0))))
     [1] (js ''A'') 1
   = Inr [\<lparr>chunk = chunkOf ''c1'' ''B'' [1], score = 1\<rparr>] \<and>
   c_tenantId (chunkOf ''c1'' ''B'' [1]) \<noteq> js ''A''"
  by (simp add: upsert_def upsertOne_def emptyStore_def chunkOf_def js_def setAdd_def
      searchStore_def cosineSimilarity_def cosineSums_def jsSlice_def)

lemma fold_remove_keys:
  "fold (\<lambda>i m. m(i := None)) ids m k = (if k \<in> set ids then None else m k)"
  by (induction ids arbitrary: m) auto

lemma searchStore_deleteByTenant:
  "searchStore (deleteByTenant t store) emb t k = Inr []"
  by (simp add: searchStore_def deleteByTenant_def split: option.splits)

text \<open>
  C9. \<open>deleteDocument\<close> returns \<open>true\<close> exactly when the document exists and belongs
  to the tenant given; otherwise it returns \<open>false\<close> and changes nothing. When it
  succeeds it removes that one entry of the document map and nothing else. In both cases the
  vector store is unchanged, so every search gives what it gave before.
  \<open>deleteAllForTenant\<close> is what removes chunks: it applies \<open>deleteByTenant\<close> to the
  store, after which the chunks of the tenant's id set are gone and a search for the
  tenant is empty.
\<close>

theorem deleteDocument_frame:
  "(snd (deleteDocument docId tenantId kb) \<longleftrightarrow>
      (\<exists>d. map_of (documents kb) docId = Some d \<and> d_tenantId d = tenantId)) \<and>
   (\<not> snd (deleteDocument docId tenantId kb) \<longrightarrow> fst (deleteDocument docId tenantId kb) = kb) \<and>
   (snd (deleteDocument docId tenantId kb) \<longrightarrow>
      fst (deleteDocument docId tenantId kb) = kb\<lparr>documents := AList.delete docId (documents kb)\<rparr> \<and>
      map_of (documents (fst (deleteDocument docId tenantId kb)))
        = (map_of (documents kb))(docId := None)) \<and>
   vectorStore (fst (deleteDocument docId tenantId kb)) = vectorStore kb \<and>
   searchStore (vectorStore (fst (deleteDocument docId tenantId kb))) emb t k
     = searchStore (vectorStore kb) emb t k \<and>
   vectorStore (fst (deleteAllForTenant t kb)) = deleteByTenant t (vectorStore kb) \<and>
   (\<forall>ids. tenantIndex (vectorStore kb) t = Some ids \<longrightarrow>
      (\<forall>i\<in>set ids. chunks (vectorStore (fst (deleteAllForTenant t kb))) i = None)) \<and>
   searchStore (vectorStore (fst (deleteAllForTenant t kb))) emb t k = Inr []"
proof -
  have del: "vectorStore (fst (deleteAllForTenant t kb)) = deleteByTenant t (vectorStore kb)"
    by (simp add: deleteAllForTenant_def split: prod.splits)
  have purge: "\<forall>ids. tenantIndex (vectorStore kb) t = Some ids \<longrightarrow>
      (\<forall>i\<in>set ids. chunks (deleteByTenant t (vectorStore kb)) i = None)"
    by (simp add: deleteByTenant_def fold_remove_keys)
  have doc: "(snd (deleteDocument docId tenantId kb) \<longleftrightarrow>
      (\<exists>d. map_of (documents kb) docId = Some d \<and> d_tenantId d = tenantId))"
    by (simp add: deleteDocument_def split: option.splits)
  have same: "\<not> snd (deleteDocument docId tenantId kb) \<longrightarrow> fst (deleteDocument docId tenantId kb) = kb"
    by (simp add: deleteDocument_def split: option.splits)
  have gone: "snd (deleteDocument docId tenantId kb) \<longrightarrow>
      fst (deleteDocument docId tenantId kb) = kb\<lparr>documents := AList.delete docId (documents kb)\<rparr> \<and>
      map_of (documents (fst (deleteDocument docId tenantId kb)))
        = (map_of (documents kb))(docId := None)"
    by (simp add: deleteDocument_def delete_conv' split: option.splits)
  have vs: "vectorStore (fst (deleteDocument docId tenantId kb)) = vectorStore kb"
    by (simp add: deleteDocument_def split: option.splits)
  show ?thesis
    using doc same gone purge by (simp add: vs del searchStore_deleteByTenant delete_conv')
qed

theorem deleteDocument_frame_witness:
  "snd (deleteDocument (js ''d1'') (js ''A'') exampleService) \<and>
   \<not> snd (deleteDocument (js ''d1'') (js ''B'') exampleService) \<and>
   \<not> snd (deleteDocument (js ''d2'') (js ''A'') exampleService) \<and>
   documents (fst (deleteDocument (js ''d1'') (js ''A'') exampleService)) = [] \<and>
   searchStore (vectorStore (fst (deleteDocument (js ''d1'') (js ''A'') exampleService)))
      [1] (js ''A'') 1 = Inr [\<lparr>chunk = chunkOf ''c1'' ''A'' [1], score = 1\<rparr>] \<and>
   tenantIndex (vectorStore exampleService) (js ''A'') = Some [js ''c1''] \<and>
   chunks (vectorStore (fst (deleteAllForTenant (js ''A'') exampleService))) (js ''c1'') = None"
proof -
  have idx: "tenantIndex (vectorStore exampleService) (js ''A'') = Some [js ''c1'']"
    by (simp add: exampleService_def exampleStore_def upsert_def upsertOne_def emptyStore_def
        chunkOf_def setAdd_def js_def)
  have s: "searchStore (vectorStore exampleService) [1] (js ''A'') 1
             = Inr [\<lparr>chunk = chunkOf ''c1'' ''A'' [1], score = 1\<rparr>]"
    by (simp add: exampleService_def exampleStore_def upsert_def upsertOne_def emptyStore_def
        chunkOf_def setAdd_def js_def searchStore_def cosineSimilarity_def cosineSums_def
        jsSlice_def)
  have m: "map_of (documents exampleService) (js ''d1'') = Some (documentOf ''d1'' ''A'' ''some text'')"
      "map_of (documents exampleService) (js ''d2'') = None"
      "d_tenantId (documentOf ''d1'' ''A'' ''some text'') = js ''A''" "js ''A'' \<noteq> js ''B''"
      "AList.delete (js ''d1'') (documents exampleService) = []"
    by (simp_all add: exampleService_def documentOf_def js_def)
  show ?thesis
    using deleteDocument_frame [of "js ''d1''" "js ''A''" exampleService "[1]" "js ''A''" 1]
      deleteDocument_frame [of "js ''d1''" "js ''B''" exampleService "[1]" "js ''A''" 1]
      deleteDocument_frame [of "js ''d2''" "js ''A''" exampleService "[1]" "js ''A''" 1]
    by (simp add: idx s m)
qed

section \<open>Search of the knowledge base\<close>

lemma jsSlice_prefix:
  "jsSlice xs 0 k = (if k < 0 then take (nat (int (length xs) + k)) xs else take (nat k) xs)"
  by (simp add: jsSlice_def Let_def max_def min_def)

lemma length_jsSlice_prefix: "0 \<le> k \<Longrightarrow> int (length (jsSlice xs 0 k)) \<le> k"
  by (simp add: jsSlice_prefix)

lemma sorted_desc_sort_key:
  "sorted_wrt (\<lambda>a b. score b \<le> score a) (sort_key (\<lambda>r. - score r) rs)"
proof -
  have "sorted (map (\<lambda>r. - score r) (sort_key (\<lambda>r. - score r) rs))"
    by (rule sorted_sort_key)
  then show ?thesis by (simp add: sorted_map)
qed

lemma sorted_desc_jsSlice:
  "sorted_wrt P xs \<Longrightarrow> sorted_wrt P (jsSlice xs 0 k)"
  by (simp add: jsSlice_prefix)

lemma searchStore_sorted:
  assumes "searchStore store emb t k = Inr cands"
  shows "sorted_wrt (\<lambda>a b. score b \<le> score a) cands"
  using assms sorted_desc_jsSlice [OF sorted_desc_sort_key]
  by (auto simp: searchStore_def split: option.splits if_splits sum.splits)

lemma searchStore_length:
  assumes "searchStore store emb t k = Inr cands" and "0 \<le> k"
  shows "int (length cands) \<le> k"
  using assms length_jsSlice_prefix [OF assms(2)]
  by (auto simp: searchStore_def split: option.splits if_splits sum.splits)

lemma search_unfold:
  "snd (search env query kb) =
     (case searchStore (vectorStore kb) (queryEmbedding env query kb) (q_tenantId query)
             (2 * spec_topK query) of
        Inl err \<Rightarrow> Inl err
      | Inr results \<Rightarrow>
          Inr (map toResult
                 (jsSlice (filter (\<lambda>r. spec_minScore query \<le> score r) results) 0 (spec_topK query))))"
  unfolding search_def queryEmbedding_def spec_topK_def spec_minScore_def Let_def
  by (simp add: mult.commute split: prod.splits)

lemma search_contract_aux:
  assumes idx: "searchStore (vectorStore kb) (queryEmbedding env query kb) (q_tenantId query)
                  (2 * spec_topK query) = Inr cands"
  shows "snd (search env query kb) =
           Inr (map toResult
                  (jsSlice (filter (\<lambda>r. spec_minScore query \<le> score r) cands) 0 (spec_topK query))) \<and>
         (\<exists>rs. snd (search env query kb) = Inr rs \<and>
               (0 \<le> spec_topK query \<longrightarrow> int (length rs) \<le> spec_topK query) \<and>
               sorted_wrt (\<lambda>a b. relevanceScore b \<le> relevanceScore a) rs \<and>
               (\<forall>r\<in>set rs. spec_minScore query \<le> relevanceScore r) \<and>
               ((\<forall>c\<in>set cands. score c < spec_minScore query) \<longrightarrow> rs = [])) \<and>
         (0 \<le> spec_topK query \<longrightarrow> int (length cands) \<le> 2 * spec_topK query) \<and>
         (\<forall>r. content (toResult r) = c_content (chunk r) \<and> relevanceScore (toResult r) = score r \<and>
              source (toResult r) =
                (case c_metadata (chunk r) of
                   None \<Rightarrow> js ''Unknown''
                 | Some m \<Rightarrow> (case m_source m of
                               None \<Rightarrow> js ''Unknown''
                             | Some s \<Rightarrow> if s = [] then js ''Unknown'' else s))) \<and>
         vectorStore (fst (search env query kb)) = vectorStore kb \<and>
         documents (fst (search env query kb)) = documents kb"
proof -
  let ?kept = "filter (\<lambda>r. spec_minScore query \<le> score r) cands"
  let ?rs = "map toResult (jsSlice ?kept 0 (spec_topK query))"
  have res: "snd (search env query kb) = Inr ?rs"
    by (simp add: search_unfold idx)
  have len: "0 \<le> spec_topK query \<longrightarrow> int (length ?rs) \<le> spec_topK query"
    using length_jsSlice_prefix [of "spec_topK query" ?kept] by simp
  have "sorted_wrt (\<lambda>a b. score b \<le> score a) (jsSlice ?kept 0 (spec_topK query))"
    by (intro sorted_desc_jsSlice sorted_wrt_filter searchStore_sorted [OF idx])
  then have srt: "sorted_wrt (\<lambda>a b. relevanceScore b \<le> relevanceScore a) ?rs"
    by (simp add: sorted_wrt_map toResult_def)
  have "set (jsSlice ?kept 0 (spec_topK query)) \<subseteq> set ?kept"
    by (auto simp: jsSlice_prefix dest: in_set_takeD)
  then have thr: "\<forall>r\<in>set ?rs. spec_minScore query \<le> relevanceScore r"
    by (auto simp: toResult_def)
  have "(\<forall>c\<in>set cands. score c < spec_minScore query) \<longrightarrow> ?kept = []"
    by (auto simp: filter_empty_conv)
  then have emp: "(\<forall>c\<in>set cands. score c < spec_minScore query) \<longrightarrow> ?rs = []"
    by (auto simp: jsSlice_prefix)
  have cl: "0 \<le> spec_topK query \<longrightarrow> int (length cands) \<le> 2 * spec_topK query"
    using searchStore_length [OF idx] by simp
  have tr: "\<forall>r. content (toResult r) = c_content (chunk r) \<and> relevanceScore (toResult r) = score r \<and>
              source (toResult r) =
                (case c_metadata (chunk r) of
                   None \<Rightarrow> js ''Unknown''
                 | Some m \<Rightarrow> (case m_source m of
                               None \<Rightarrow> js ''Unknown''
                             | Some s \<Rightarrow> if s = [] then js ''Unknown'' else s))"
    by (simp add: toResult_def)
  have fr: "vectorStore (fst (search env query kb)) = vectorStore kb"
      "documents (fst (search env query kb)) = documents kb"
    by (simp_all add: search_def Let_def split: prod.splits)
  from res len srt thr emp have ex: "\<exists>rs. snd (search env query kb) = Inr rs \<and>
               (0 \<le> spec_topK query \<longrightarrow> int (length rs) \<le> spec_topK query) \<and>
               sorted_wrt (\<lambda>a b. relevanceScore b \<le> relevanceScore a) rs \<and>
               (\<forall>r\<in>set rs. spec_minScore query \<le> relevanceScore r) \<and>
               ((\<forall>c\<in>set cands. score c < spec_minScore query) \<longrightarrow> rs = [])"
    by blast
  from res ex cl tr fr show ?thesis by blast
qed

lemma cosineSimilarity_error:
  "length a \<noteq> length b \<Longrightarrow> cosineSimilarity a b = Inl dimensionError"
  by (simp add: cosineSimilarity_def dimensionError_def)

lemma scoreChunks_cases:
  "(list_ex (mismatchAt store emb) ids \<longrightarrow> scoreChunks store emb ids acc = Inl dimensionError) \<and>
   (\<not> list_ex (mismatchAt store emb) ids \<longrightarrow> (\<exists>rs. scoreChunks store emb ids acc = Inr rs))"
proof (induction ids arbitrary: acc)
  case Nil
  show ?case by simp
next
  case (Cons i ids)
  show ?case
  proof (cases "chunks store i")
    case None
    then show ?thesis using Cons.IH [of acc] by (simp add: mismatchAt_def)
  next
    case (Some c)
    show ?thesis
    proof (cases "c_embedding c")
      case None
      then show ?thesis using Some Cons.IH [of acc] by (simp add: mismatchAt_def)
    next
      case e: (Some e)
      show ?thesis
      proof (cases "length e = length emb")
        case False
        then have "cosineSimilarity emb e = Inl dimensionError"
          by (intro cosineSimilarity_error) simp
        then show ?thesis using Some e False by (simp add: mismatchAt_def)
      next
        case True
        then obtain s where s: "cosineSimilarity emb e = Inr s"
          using cosineSimilarity_eq [of emb e] by simp
        show ?thesis
          using Some e True s Cons.IH [of "acc @ [\<lparr>chunk = c, score = s\<rparr>]"]
          by (simp add: mismatchAt_def)
      qed
    qed
  qed
qed

lemma searchStore_mismatch:
  assumes "dimensionMismatch store t emb"
  shows "searchStore store emb t k = Inl dimensionError"
proof -
  from assms obtain ids where ids: "tenantIndex store t = Some ids"
    and ex: "list_ex (mismatchAt store emb) ids"
    by (auto simp: dimensionMismatch_def split: option.splits)
  from ex have "ids \<noteq> []" by auto
  moreover from ex scoreChunks_cases [of store emb ids "[]"]
  have "scoreChunks store emb ids [] = Inl dimensionError" by simp
  ultimately show ?thesis using ids by (simp add: searchStore_def)
qed

lemma searchStore_match:
  assumes "\<not> dimensionMismatch store t emb"
  shows "\<exists>cands. searchStore store emb t k = Inr cands"
proof (cases "tenantIndex store t")
  case None
  then show ?thesis by (simp add: searchStore_def)
next
  case (Some ids)
  with assms scoreChunks_cases [of store emb ids "[]"]
  obtain rs where "scoreChunks store emb ids [] = Inr rs"
    by (auto simp: dimensionMismatch_def)
  then show ?thesis using Some by (simp add: searchStore_def)
qed

lemma cosine_zero_vector:
  "length a = n \<Longrightarrow> cosineSimilarity a (replicate n 0) = Inr 0"
  by (simp add: cosineSimilarity_eq spec_norm_zeros)

lemma cosine_fallback_zero:
  "cosineSimilarity (embedding (simpleEmbedding env t)) (replicate spec_D 0) = Inr 0"
  by (rule cosine_zero_vector) (rule length_simpleEmbedding)

lemma zeroService_candidates:
  "searchStore (vectorStore zeroService)
     (queryEmbedding exampleEnv (hiQuery\<lparr>q_minScore := m\<rparr>) zeroService)
     (q_tenantId (hiQuery\<lparr>q_minScore := m\<rparr>))
     (2 * spec_topK (hiQuery\<lparr>q_minScore := m\<rparr>))
   = Inr [\<lparr>chunk = zeroChunk, score = 0\<rparr>]"
proof -
  have q: "queryEmbedding exampleEnv (hiQuery\<lparr>q_minScore := m\<rparr>) zeroService
             = embedding (simpleEmbedding exampleEnv (q_query hiQuery))"
    by (simp add: queryEmbedding_def zeroService_def hiQuery_def embed_def)
  have k: "2 * spec_topK (hiQuery\<lparr>q_minScore := m\<rparr>) = 6"
    by (simp add: spec_topK_def hiQuery_def)
  have t: "q_tenantId (hiQuery\<lparr>q_minScore := m\<rparr>) = js ''A''"
    by (simp add: hiQuery_def)
  show ?thesis
    unfolding q k t
    by (simp add: zeroService_def upsert_def upsertOne_def emptyStore_def zeroChunk_def setAdd_def
        searchStore_def cosine_fallback_zero jsSlice_def js_def)
qed

lemmas ingest_eval = ingestDocument_def chunkDocument_rt_def embedBatch_def embed_def
  embedWithOpenAI_def exampleEnv_def mkChunk_def DEFAULT_CHUNK_CONFIG_def
  inputOf_def openaiService_def storedDocument_def storedChunk_def okResult_def Let_def js_def
  upsert_def upsertOne_def emptyStore_def setAdd_def failedEntry_def

lemma mixed_ingest:
  "ingest rt onceEnv \<lparr>r_tenantId = js ''A'', r_documents = [inputOf ''alpha'']\<rparr> openaiService
     = Some (mixedState, [okResult 0])"
  by (simp add: ingest_def ingest_eval onceEnv_def mixedState_def tokenEstimate_def)

lemma mixed_search:
  "snd (search onceEnv hiQuery mixedState) = Inl dimensionError"
proof -
  have q: "queryEmbedding onceEnv hiQuery mixedState
             = embedding (simpleEmbedding onceEnv (js ''hi''))"
    by (simp add: queryEmbedding_def mixedState_def openaiService_def hiQuery_def embed_def
        embedWithOpenAI_def onceEnv_def)
  have "dimensionMismatch (vectorStore mixedState) (q_tenantId hiQuery)
          (queryEmbedding onceEnv hiQuery mixedState)"
    unfolding q
    by (simp add: dimensionMismatch_def mismatchAt_def mixedState_def hiQuery_def upsert_def
        upsertOne_def emptyStore_def storedChunk_def storedDocument_def mkChunk_def setAdd_def
        length_simpleEmbedding spec_D_def js_def)
  then show ?thesis by (simp add: search_unfold searchStore_mismatch)
qed

lemma negative_search:
  "snd (search exampleEnv negativeQuery fourService)
     = Inr [\<lparr>content = js ''text'', source = js ''faq.md'', relevanceScore = 0\<rparr>]"
proof -
  have q: "queryEmbedding exampleEnv negativeQuery fourService
             = embedding (simpleEmbedding exampleEnv (js ''hi''))"
    by (simp add: queryEmbedding_def fourService_def zeroService_def negativeQuery_def hiQuery_def
        embed_def)
  have k: "spec_topK negativeQuery = - 1" "spec_minScore negativeQuery = 0"
      "q_tenantId negativeQuery = js ''A''"
    by (simp_all add: spec_topK_def spec_minScore_def negativeQuery_def hiQuery_def)
  have s0: "searchStore (vectorStore fourService) (embedding (simpleEmbedding exampleEnv (js ''hi'')))
             (js ''A'') (- 2)
           = Inr [\<lparr>chunk = zeroChunk\<lparr>c_id := js ''c1''\<rparr>, score = 0\<rparr>,
                  \<lparr>chunk = zeroChunk\<lparr>c_id := js ''c2''\<rparr>, score = 0\<rparr>]"
    by (simp add: fourService_def zeroService_def upsert_def upsertOne_def emptyStore_def
        zeroChunk_def setAdd_def searchStore_def cosine_fallback_zero jsSlice_def js_def)
  have s: "searchStore (vectorStore fourService) (queryEmbedding exampleEnv negativeQuery fourService)
             (q_tenantId negativeQuery) (2 * spec_topK negativeQuery)
           = Inr [\<lparr>chunk = zeroChunk\<lparr>c_id := js ''c1''\<rparr>, score = 0\<rparr>,
                  \<lparr>chunk = zeroChunk\<lparr>c_id := js ''c2''\<rparr>, score = 0\<rparr>]"
    using s0 by (simp add: q k)
  show ?thesis
    unfolding search_unfold s
    by (simp add: k jsSlice_def toResult_def zeroChunk_def js_def)
qed

text \<open>
  C7 (as stated, refuted). Two inputs. First, a service with the OpenAI provider ingests
  one document while the remote service answers (a vector of length \<open>2\<close> is stored);
  at the search the remote service refuses, the query is embedded by the fallback (length
  \<open>384\<close>), \<open>cosineSimilarity\<close> throws and \<open>search\<close> ends with that error, not with
  a sequence. Second, a query with \<open>topK = -1\<close> against four stored chunks:
  \<open>slice(0, -2)\<close> and \<open>slice(0, -1)\<close> count from the end and one result is returned,
  more than \<open>topK\<close>.
\<close>

theorem search_contract_counterexample:
  "ingest exampleRuntime onceEnv \<lparr>r_tenantId = js ''A'', r_documents = [inputOf ''alpha'']\<rparr>
     openaiService = Some (mixedState, [okResult 0]) \<and>
   snd (search onceEnv hiQuery mixedState) = Inl (Error ''Vectors must have same dimensions'') \<and>
   q_topK negativeQuery = Some (- 1) \<and>
   snd (search exampleEnv negativeQuery fourService)
     = Inr [\<lparr>content = js ''text'', source = js ''faq.md'', relevanceScore = 0\<rparr>]"
  using mixed_ingest [of exampleRuntime] mixed_search negative_search
  by (simp add: negativeQuery_def dimensionError_def)

text \<open>
  C7 (amended). For a query with \<open>topK >= 0\<close> (\<open>topK\<close> defaults to \<open>3\<close>,
  \<open>minScore\<close> to \<open>0.5\<close>), \<open>search\<close> embeds the query text and asks the vector
  store for \<open>2 * topK\<close> candidates of the tenant. When a chunk in the tenant's id set has
  an embedding whose length is not that of the query embedding, \<open>search\<close> ends with the
  error of \<open>cosineSimilarity\<close>. Otherwise the store answers with at most \<open>2 * topK\<close>
  candidates and the result is: the candidates with \<open>score >= minScore\<close>, cut by
  \<open>slice(0, topK)\<close>, each mapped to its content, its source (\<open>'Unknown'\<close> when the
  metadata or the source is missing or empty) and its score. So the result has at most
  \<open>topK\<close> entries, is sorted by descending score, has no score below \<open>minScore\<close>, and
  is the empty list, not an error, when no candidate reaches \<open>minScore\<close>. The store and
  the documents are unchanged.
\<close>

theorem search_contract:
  assumes topK: "0 \<le> spec_topK query"
  shows
   "(dimensionMismatch (vectorStore kb) (q_tenantId query) (queryEmbedding env query kb) \<longrightarrow>
       snd (search env query kb) = Inl dimensionError) \<and>
    (\<not> dimensionMismatch (vectorStore kb) (q_tenantId query) (queryEmbedding env query kb) \<longrightarrow>
       (\<exists>cands rs.
          searchStore (vectorStore kb) (queryEmbedding env query kb) (q_tenantId query)
            (2 * spec_topK query) = Inr cands \<and>
          int (length cands) \<le> 2 * spec_topK query \<and>
          snd (search env query kb) = Inr rs \<and>
          rs = map toResult
                 (jsSlice (filter (\<lambda>r. spec_minScore query \<le> score r) cands) 0 (spec_topK query)) \<and>
          int (length rs) \<le> spec_topK query \<and>
          sorted_wrt (\<lambda>a b. relevanceScore b \<le> relevanceScore a) rs \<and>
          (\<forall>r\<in>set rs. spec_minScore query \<le> relevanceScore r) \<and>
          ((\<forall>c\<in>set cands. score c < spec_minScore query) \<longrightarrow> rs = []))) \<and>
    (\<forall>r. content (toResult r) = c_content (chunk r) \<and> relevanceScore (toResult r) = score r \<and>
         source (toResult r) =
           (case c_metadata (chunk r) of
              None \<Rightarrow> js ''Unknown''
            | Some m \<Rightarrow> (case m_source m of
                          None \<Rightarrow> js ''Unknown''
                        | Some s \<Rightarrow> if s = [] then js ''Unknown'' else s))) \<and>
    vectorStore (fst (search env query kb)) = vectorStore kb \<and>
    documents (fst (search env query kb)) = documents kb"
proof -
  let ?mis = "dimensionMismatch (vectorStore kb) (q_tenantId query) (queryEmbedding env query kb)"
  have bad: "?mis \<longrightarrow> snd (search env query kb) = Inl dimensionError"
    by (simp add: search_unfold searchStore_mismatch)
  have good: "\<not> ?mis \<longrightarrow>
       (\<exists>cands rs.
          searchStore (vectorStore kb) (queryEmbedding env query kb) (q_tenantId query)
            (2 * spec_topK query) = Inr cands \<and>
          int (length cands) \<le> 2 * spec_topK query \<and>
          snd (search env query kb) = Inr rs \<and>
          rs = map toResult
                 (jsSlice (filter (\<lambda>r. spec_minScore query \<le> score r) cands) 0 (spec_topK query)) \<and>
          int (length rs) \<le> spec_topK query \<and>
          sorted_wrt (\<lambda>a b. relevanceScore b \<le> relevanceScore a) rs \<and>
          (\<forall>r\<in>set rs. spec_minScore query \<le> relevanceScore r) \<and>
          ((\<forall>c\<in>set cands. score c < spec_minScore query) \<longrightarrow> rs = []))"
  proof
    assume "\<not> ?mis"
    from searchStore_match [OF this, of "2 * spec_topK query"]
    obtain cands where idx: "searchStore (vectorStore kb) (queryEmbedding env query kb)
        (q_tenantId query) (2 * spec_topK query) = Inr cands" by blast
    let ?rs = "map toResult
                 (jsSlice (filter (\<lambda>r. spec_minScore query \<le> score r) cands) 0 (spec_topK query))"
    from search_contract_aux [OF idx] have res: "snd (search env query kb) = Inr ?rs"
      by (rule conjunct1)
    from search_contract_aux [OF idx] obtain rs' where rs':
        "snd (search env query kb) = Inr rs'"
        "0 \<le> spec_topK query \<longrightarrow> int (length rs') \<le> spec_topK query"
        "sorted_wrt (\<lambda>a b. relevanceScore b \<le> relevanceScore a) rs'"
        "\<forall>r\<in>set rs'. spec_minScore query \<le> relevanceScore r"
        "(\<forall>c\<in>set cands. score c < spec_minScore query) \<longrightarrow> rs' = []"
      by blast
    from res rs'(1) have eq: "rs' = ?rs" by simp
    have len: "int (length cands) \<le> 2 * spec_topK query"
      using searchStore_length [OF idx] topK by simp
    have "searchStore (vectorStore kb) (queryEmbedding env query kb) (q_tenantId query)
            (2 * spec_topK query) = Inr cands \<and>
          int (length cands) \<le> 2 * spec_topK query \<and>
          snd (search env query kb) = Inr rs' \<and>
          rs' = ?rs \<and>
          int (length rs') \<le> spec_topK query \<and>
          sorted_wrt (\<lambda>a b. relevanceScore b \<le> relevanceScore a) rs' \<and>
          (\<forall>r\<in>set rs'. spec_minScore query \<le> relevanceScore r) \<and>
          ((\<forall>c\<in>set cands. score c < spec_minScore query) \<longrightarrow> rs' = [])"
      using idx len rs' eq topK by (intro conjI) simp_all
    then show "\<exists>cands rs.
          searchStore (vectorStore kb) (queryEmbedding env query kb) (q_tenantId query)
            (2 * spec_topK query) = Inr cands \<and>
          int (length cands) \<le> 2 * spec_topK query \<and>
          snd (search env query kb) = Inr rs \<and>
          rs = map toResult
                 (jsSlice (filter (\<lambda>r. spec_minScore query \<le> score r) cands) 0 (spec_topK query)) \<and>
          int (length rs) \<le> spec_topK query \<and>
          sorted_wrt (\<lambda>a b. relevanceScore b \<le> relevanceScore a) rs \<and>
          (\<forall>r\<in>set rs. spec_minScore query \<le> relevanceScore r) \<and>
          ((\<forall>c\<in>set cands. score c < spec_minScore query) \<longrightarrow> rs = [])"
      by (intro exI)
  qed
  have tr: "\<forall>r. content (toResult r) = c_content (chunk r) \<and> relevanceScore (toResult r) = score r \<and>
         source (toResult r) =
           (case c_metadata (chunk r) of
              None \<Rightarrow> js ''Unknown''
            | Some m \<Rightarrow> (case m_source m of
                          None \<Rightarrow> js ''Unknown''
                        | Some s \<Rightarrow> if s = [] then js ''Unknown'' else s))"
    by (simp add: toResult_def)
  have fr: "vectorStore (fst (search env query kb)) = vectorStore kb"
      "documents (fst (search env query kb)) = documents kb"
    by (simp_all add: search_def Let_def split: prod.splits)
  from bad good tr fr show ?thesis by (intro conjI)
qed

theorem search_contract_witness:
  "0 \<le> spec_topK hiQuery \<and>
   dimensionMismatch (vectorStore exampleService) (q_tenantId hiQuery)
     (queryEmbedding exampleEnv hiQuery exampleService) \<and>
   snd (search exampleEnv hiQuery exampleService) = Inl dimensionError \<and>
   \<not> dimensionMismatch (vectorStore zeroService) (q_tenantId hiQuery)
       (queryEmbedding exampleEnv hiQuery zeroService) \<and>
   snd (search exampleEnv hiQuery zeroService) = Inr [] \<and>
   snd (search exampleEnv (hiQuery\<lparr>q_minScore := Some 0\<rparr>) zeroService)
     = Inr [\<lparr>content = js ''text'', source = js ''faq.md'', relevanceScore = 0\<rparr>]"
proof -
  have a: "hiQuery\<lparr>q_minScore := None\<rparr> = hiQuery" by (simp add: hiQuery_def)
  have t: "toResult \<lparr>chunk = zeroChunk, score = 0\<rparr>
             = \<lparr>content = js ''text'', source = js ''faq.md'', relevanceScore = 0\<rparr>"
    by (simp add: toResult_def zeroChunk_def js_def)
  have s: "spec_minScore hiQuery = 0.5" "spec_minScore (hiQuery\<lparr>q_minScore := Some 0\<rparr>) = 0"
      "spec_topK hiQuery = 3" "spec_topK (hiQuery\<lparr>q_minScore := Some 0\<rparr>) = 3"
      "q_tenantId (hiQuery\<lparr>q_minScore := Some 0\<rparr>) = q_tenantId hiQuery"
    by (simp_all add: spec_minScore_def spec_topK_def hiQuery_def)
  have qe: "queryEmbedding exampleEnv hiQuery exampleService
              = embedding (simpleEmbedding exampleEnv (q_query hiQuery))"
    by (simp add: queryEmbedding_def exampleService_def embed_def)
  have qz: "queryEmbedding exampleEnv (hiQuery\<lparr>q_minScore := m\<rparr>) zeroService
              = embedding (simpleEmbedding exampleEnv (q_query hiQuery))" for m
    by (simp add: queryEmbedding_def zeroService_def hiQuery_def embed_def)
  have mis: "dimensionMismatch (vectorStore exampleService) (q_tenantId hiQuery)
     (queryEmbedding exampleEnv hiQuery exampleService)"
    unfolding qe
    by (simp add: dimensionMismatch_def mismatchAt_def exampleService_def exampleStore_def
        hiQuery_def upsert_def upsertOne_def emptyStore_def chunkOf_def setAdd_def
        length_simpleEmbedding spec_D_def js_def)
  have ok: "\<not> dimensionMismatch (vectorStore zeroService) (q_tenantId hiQuery)
       (queryEmbedding exampleEnv (hiQuery\<lparr>q_minScore := m\<rparr>) zeroService)" for m
    unfolding qz
    by (simp add: dimensionMismatch_def mismatchAt_def zeroService_def hiQuery_def upsert_def
        upsertOne_def emptyStore_def zeroChunk_def setAdd_def length_simpleEmbedding js_def)
  show ?thesis
    using search_contract [of hiQuery exampleService exampleEnv]
      search_contract [of "hiQuery\<lparr>q_minScore := None\<rparr>" zeroService exampleEnv]
      search_contract [of "hiQuery\<lparr>q_minScore := Some 0\<rparr>" zeroService exampleEnv]
      zeroService_candidates [of None] zeroService_candidates [of "Some 0"]
      mis ok [of None] ok [of "Some 0"]
    by (auto simp: a t s jsSlice_def)
qed

section \<open>Ingestion\<close>

lemma ingestLoop_append:
  "ingestLoop rt env t (ds1 @ ds2) (kb, rs) =
     (case ingestLoop rt env t ds1 (kb, rs) of
        None \<Rightarrow> None
      | Some st \<Rightarrow> ingestLoop rt env t ds2 st)"
proof (induction ds1 arbitrary: kb rs)
  case Nil
  show ?case by simp
next
  case (Cons d ds1)
  show ?case
    by (cases "ingestDocument rt env t d kb") (auto simp: Cons.IH)
qed

lemma ingestLoop_prefix:
  "ingestLoop rt env t ds (kb, rs0 @ rs)
     = map_option (\<lambda>(kb', new). (kb', rs0 @ new)) (ingestLoop rt env t ds (kb, rs))"
proof (induction ds arbitrary: kb rs)
  case Nil
  show ?case by simp
next
  case (Cons d ds)
  show ?case
  proof (cases "ingestDocument rt env t d kb")
    case None
    then show ?thesis by simp
  next
    case (Some a)
    obtain kb1 r where a: "a = (kb1, r)" by (cases a)
    show ?thesis using Cons.IH [of kb1 "rs @ [r]"] by (simp add: Some a)
  qed
qed

lemma ingestLoop_length:
  "ingestLoop rt env t ds (kb, rs) = Some (kb', rs') \<Longrightarrow> length rs' = length rs + length ds"
proof (induction ds arbitrary: kb rs)
  case Nil
  then show ?case by simp
next
  case (Cons d ds)
  then show ?case
    by (cases "ingestDocument rt env t d kb") (auto split: prod.splits)
qed

lemma status_failedEntry: "status (failedEntry err) = failed \<and> error (failedEntry err) \<noteq> None"
  by (cases err) (simp add: failedEntry_def)

lemma ingestDocument_failed:
  assumes "ingestDocument rt env t d kb = Some (kb1, r)" and "status r = failed"
  shows "error r \<noteq> None \<and> documentId r = [] \<and> chunksCreated r = 0 \<and>
         documents kb1 = documents kb \<and> vectorStore kb1 = vectorStore kb"
  using assms
  by (auto simp: ingestDocument_def Let_def failedEntry_def
      split: option.splits prod.splits if_splits sum.splits Error.splits)

lemma ingestDocument_success:
  assumes "ingestDocument rt env t d kb = Some (kb1, r)" and "status r = success"
  shows "error r = None \<and>
         (\<exists>doc. map_of (documents kb1) (documentId r) = Some doc \<and> d_tenantId doc = t \<and>
                d_content doc = i_content d)"
  using assms
  by (auto simp: ingestDocument_def Let_def update_conv' failedEntry_def
      split: option.splits prod.splits if_splits sum.splits Error.splits)

lemma ingestDocument_config:
  assumes "ingestDocument rt env t d kb = Some (kb1, r)"
  shows "chunkConfig kb1 = chunkConfig kb \<and> provider kb1 = provider kb"
  using assms
  by (auto simp: ingestDocument_def Let_def split: option.splits prod.splits if_splits sum.splits)

lemma ingestDocument_returns:
  assumes "overlapSize (chunkConfig kb) < maxChunkSize (chunkConfig kb)"
  shows "ingestDocument rt env t d kb \<noteq> None"
proof -
  let ?document = "\<lparr>d_id = uuidv4 env (uuidCount kb), d_tenantId = t,
                       d_title = i_title d, d_content = i_content d,
                       d_source = i_source d, d_type = i_type d\<rparr>"
  have "chunkDocument_rt rt env (chunkConfig kb) ?document (Suc (uuidCount kb)) \<noteq> None"
    by (rule chunkDocument_rt_returns) (rule assms)
  then show ?thesis
    by (auto simp: ingestDocument_def Let_def split: option.splits prod.splits if_splits sum.splits)
qed

lemma ingestLoop_returns:
  assumes "overlapSize (chunkConfig kb) < maxChunkSize (chunkConfig kb)"
  shows "ingestLoop rt env t ds (kb, rs) \<noteq> None"
  using assms
proof (induction ds arbitrary: kb rs)
  case Nil
  show ?case by simp
next
  case (Cons d ds)
  from ingestDocument_returns [OF Cons.prems, of rt env t d]
  obtain kb1 r where step: "ingestDocument rt env t d kb = Some (kb1, r)" by auto
  from ingestDocument_config [OF step] have "chunkConfig kb1 = chunkConfig kb" by simp
  with Cons.prems have "ingestLoop rt env t ds (kb1, rs @ [r]) \<noteq> None"
    by (intro Cons.IH) simp
  with step show ?case by simp
qed

text \<open>
  What the \<open>try\<close> and \<open>catch\<close> of \<open>ingest\<close> give when every document returns.
  Take a batch \<open>ds1 @ d # ds2\<close>: the documents before \<open>d\<close> lead from \<open>kb0\<close> to
  \<open>kb1\<close> with the entries \<open>rs1\<close>, \<open>d\<close> leads to \<open>kb2\<close> with the entry \<open>r\<close>,
  and the documents after it lead to \<open>kb3\<close> with the entries \<open>rs2\<close>. Then \<open>ingest\<close>
  of the whole batch returns \<open>rs1 @ r # rs2\<close>, one entry per document, whatever the
  status of \<open>r\<close>. When \<open>d\<close> fails, its entry carries an error message, and the
  documents and the vector store are what they were before \<open>d\<close>. With an overlap below
  the chunk size \<open>ingest\<close> returns for every batch.
\<close>

lemma ingest_isolation:
  assumes before: "ingestLoop rt env t ds1 (kb0, []) = Some (kb1, rs1)"
    and step: "ingestDocument rt env t d kb1 = Some (kb2, r)"
    and after: "ingestLoop rt env t ds2 (kb2, []) = Some (kb3, rs2)"
  shows "ingest rt env \<lparr>r_tenantId = t, r_documents = ds1 @ d # ds2\<rparr> kb0 = Some (kb3, rs1 @ r # rs2) \<and>
         length (rs1 @ r # rs2) = length (ds1 @ d # ds2) \<and>
         (status r = failed \<longrightarrow>
            error r \<noteq> None \<and> documents kb2 = documents kb1 \<and> vectorStore kb2 = vectorStore kb1) \<and>
         (status r = success \<longrightarrow> error r = None \<and> map_of (documents kb2) (documentId r) \<noteq> None)"
proof -
  have tail: "ingestLoop rt env t ds2 (kb2, rs1 @ [r]) = Some (kb3, rs1 @ r # rs2)"
    using ingestLoop_prefix [of rt env t ds2 kb2 "rs1 @ [r]" "[]"] after by simp
  have run: "ingest rt env \<lparr>r_tenantId = t, r_documents = ds1 @ d # ds2\<rparr> kb0 = Some (kb3, rs1 @ r # rs2)"
    by (simp add: ingest_def ingestLoop_append before step tail)
  have len: "length (rs1 @ r # rs2) = length (ds1 @ d # ds2)"
    using ingestLoop_length [OF before] ingestLoop_length [OF after] by simp
  have f: "status r = failed \<longrightarrow>
            error r \<noteq> None \<and> documents kb2 = documents kb1 \<and> vectorStore kb2 = vectorStore kb1"
    using ingestDocument_failed [OF step] by simp
  have s: "status r = success \<longrightarrow> error r = None \<and> map_of (documents kb2) (documentId r) \<noteq> None"
    using ingestDocument_success [OF step] by auto
  from run len f s show ?thesis by blast
qed

lemma ingest_returns:
  assumes "overlapSize (chunkConfig kb) < maxChunkSize (chunkConfig kb)"
  shows "\<exists>kb' results. ingest rt env request kb = Some (kb', results) \<and>
           length results = length (r_documents request)"
proof -
  from ingestLoop_returns [OF assms, of rt env "r_tenantId request" "r_documents request" "[]"]
  obtain kb' results where i: "ingest rt env request kb = Some (kb', results)"
    by (auto simp: ingest_def)
  then have "length results = length (r_documents request)"
    using ingestLoop_length [of rt env "r_tenantId request" "r_documents request" kb "[]" kb' results]
    by (simp add: ingest_def)
  with i show ?thesis by blast
qed

text \<open>Examples: a provider that returns too few vectors for the second of three
  documents, and a stride of zero, where the engine ends the forced split of the first
  document with \<open>RangeError: Invalid array length\<close> and \<open>ingest\<close> goes on to the
  second.\<close>

lemmas batch_eval = ingest_eval flakyEnv_def alphaState_def betaState_def gammaState_def
  failedResult_def simpleEmbedding_def

lemma alpha_step:
  "ingestDocument rt flakyEnv (js ''A'') (inputOf ''alpha'') openaiService
     = Some (alphaState, okResult 0)"
  by (simp add: batch_eval)

lemma beta_step:
  "ingestDocument rt flakyEnv (js ''A'') (inputOf ''beta'') alphaState
     = Some (betaState, failedResult)"
  by (simp add: batch_eval)

lemma gamma_step:
  "ingestDocument rt flakyEnv (js ''A'') (inputOf ''gamma'') betaState
     = Some (gammaState, okResult 4)"
  by (simp add: batch_eval)

lemma ingest_batch_example:
  "ingest rt flakyEnv
     \<lparr>r_tenantId = js ''A'', r_documents = [inputOf ''alpha'', inputOf ''beta'', inputOf ''gamma'']\<rparr>
     openaiService
   = Some (gammaState, [okResult 0, failedResult, okResult 4]) \<and>
   status failedResult = failed \<and> error failedResult \<noteq> None \<and>
   documents betaState = documents alphaState \<and> vectorStore betaState = vectorStore alphaState \<and>
   map fst (documents gammaState) = [uuidv4 exampleEnv 0, uuidv4 exampleEnv 4]"
proof -
  have before: "ingestLoop rt flakyEnv (js ''A'') [inputOf ''alpha''] (openaiService, [])
                  = Some (alphaState, [okResult 0])"
    by (simp add: alpha_step)
  have after: "ingestLoop rt flakyEnv (js ''A'') [inputOf ''gamma''] (betaState, [])
                  = Some (gammaState, [okResult 4])"
    by (simp add: gamma_step)
  have st: "status failedResult = failed" by (simp add: failedResult_def failedEntry_def)
  have keys: "map fst (documents gammaState) = [uuidv4 exampleEnv 0, uuidv4 exampleEnv 4]"
    by (simp add: gammaState_def betaState_def alphaState_def exampleEnv_def js_def
        storedDocument_def openaiService_def)
  show ?thesis
    using ingest_isolation [OF before beta_step after] st keys
    by simp
qed

lemma stuck_split_overflows:
  "splitText_rt cap (Suc d) stuckConfig (js ''abcdef'') = Some (Inl arrayLengthError)"
proof -
  have "sliceLoop_rt cap stuckConfig (js ''abcdef'') 0 [] = Some (Inl arrayLengthError)"
    by (rule sliceLoop_rt_overflows)
      (simp_all add: stuckConfig_def js_def trim_def jsSlice_def isWhiteSpace_def)
  then show ?thesis
    by (simp add: stuckConfig_def DEFAULT_CHUNK_CONFIG_def js_def startsWith_def)
qed

lemma ingest_catches_overflow:
  "map_option (\<lambda>r. map (\<lambda>e. (status e, error e)) (snd r))
     (ingest \<lparr>callDepth = Suc d, arrayLimit = cap\<rparr> exampleEnv
        \<lparr>r_tenantId = js ''A'', r_documents = [inputOf ''abcdef'', inputOf ''ok'']\<rparr>
        (serviceWith stuckConfig))
   = Some [(failed, Some ''Invalid array length''), (success, None)]"
proof -
  let ?rt = "\<lparr>callDepth = Suc d, arrayLimit = cap\<rparr>"
  have c: "i_content (inputOf ''abcdef'') = js ''abcdef''" by (simp add: inputOf_def)
  have big: "\<not> int (length (js ''abcdef'')) \<le> maxChunkSize stuckConfig"
    by (simp add: js_def stuckConfig_def)
  have first: "ingestDocument ?rt exampleEnv (js ''A'') (inputOf ''abcdef'') (serviceWith stuckConfig)
          = Some ((serviceWith stuckConfig)\<lparr>uuidCount := Suc 0\<rparr>, failedEntry arrayLengthError)"
    unfolding ingestDocument_def chunkDocument_rt_def Let_def
    using big stuck_split_overflows [of cap d]
    by (simp add: c serviceWith_def del: splitText_rt.simps)
  have second: "map_option (\<lambda>r. (status (snd r), error (snd r)))
          (ingestDocument ?rt exampleEnv (js ''A'') (inputOf ''ok'')
             ((serviceWith stuckConfig)\<lparr>uuidCount := Suc 0\<rparr>))
          = Some (success, None)"
    by (simp add: ingestDocument_def chunkDocument_rt_def embedBatch_def embed_def Let_def
        inputOf_def serviceWith_def stuckConfig_def js_def upsert_def upsertOne_def mkChunk_def
        exampleEnv_def)
  then obtain kb2 r2 where s2: "ingestDocument ?rt exampleEnv (js ''A'') (inputOf ''ok'')
             ((serviceWith stuckConfig)\<lparr>uuidCount := Suc 0\<rparr>) = Some (kb2, r2)"
      and r2: "status r2 = success" "error r2 = None"
    by auto
  show ?thesis
    by (simp add: ingest_def first s2 r2 failedEntry_def arrayLengthError_def)
qed

lemma backward_loop_hangs:
  "sliceLoop_rt (10 + l) backwardConfig (js ''abcdef'') 0 [] = None"
  by (rule sliceLoop_rt_hangs) (simp_all add: backwardConfig_def js_def)

lemma backward_split_hangs:
  "splitText_rt (10 + l) (Suc d) backwardConfig (js ''abcdef'') = None"
  using backward_loop_hangs [of l]
  by (simp add: backwardConfig_def DEFAULT_CHUNK_CONFIG_def js_def startsWith_def)

text \<open>
  C8 (what the code does). A service whose configuration has \<open>maxChunkSize = 4\<close> and
  \<open>overlapSize = 5\<close> ingests a batch whose first document has the content
  \<open>abcdef\<close>. The forced split has stride \<open>-1\<close>: the index never reaches the end of
  the text, six slices are pushed, every later slice is empty, and the loop goes on for
  ever. Nothing is thrown, so nothing is caught: \<open>ingest\<close> never returns, no entry is
  reported for any document, and the documents after the first are never processed.
\<close>

theorem ingest_never_returns:
  "splitText_rt (10 + l) (Suc d) backwardConfig (js ''abcdef'') = None \<and>
   ingest \<lparr>callDepth = Suc d, arrayLimit = 10 + l\<rparr> env
     \<lparr>r_tenantId = js ''A'', r_documents = inputOf ''abcdef'' # docs\<rparr>
     (serviceWith backwardConfig) = None"
proof -
  have c: "i_content (inputOf ''abcdef'') = js ''abcdef''" by (simp add: inputOf_def)
  have big: "\<not> int (length (js ''abcdef'')) \<le> maxChunkSize backwardConfig"
    by (simp add: js_def backwardConfig_def)
  have "ingestDocument \<lparr>callDepth = Suc d, arrayLimit = 10 + l\<rparr> env (js ''A'') (inputOf ''abcdef'')
          (serviceWith backwardConfig) = None"
    unfolding ingestDocument_def chunkDocument_rt_def Let_def
    using big backward_split_hangs [of l d]
    by (simp add: c serviceWith_def del: splitText_rt.simps)
  then show ?thesis using backward_split_hangs [of l d] by (simp add: ingest_def)
qed

end
